theory Spec2Isabelle
  imports Main "HOL-Library.Word"
begin

section \<open>The replication client of the journal service (gazette/replicate_client.go)\<close>

text \<open>
  The client forwards a write to a peer over a pooled connection: a handshake request
  (\<^verbatim>\<open>REPLICATE\<close>,
  \<^verbatim>\<open>Expect: 100-continue\<close>), a chunked body, and a trailer
  carrying the commit delta. The embedding follows the Go source function by function.
  What the source obtains from its collaborators (the endpoint, the dialer, the
  transport, the HTTP parser) is a parameter of the model; what it computes itself is a
  definition.
\<close>

subsection \<open>Numbers on the wire: strconv and the \<^verbatim>\<open>%x\<close> verb\<close>

text \<open>
  \<^verbatim>\<open>int64\<close> is a 64-bit word read in two's complement
  (\<open>sint\<close>). The digit loop of \<^verbatim>\<open>strconv.ParseUint\<close>
  works on \<^verbatim>\<open>uint64\<close>: a natural number, with the wrap-around of
  its multiplication and addition written out.
\<close>

type_synonym int64 = "64 word"

datatype NumError = ErrSyntax | ErrRange | ErrBase

definition digits :: string where
  "digits = ''0123456789abcdefghijklmnopqrstuvwxyz''"

text \<open>The value of one digit, as the \<^verbatim>\<open>switch\<close> of ParseUint reads it.\<close>

definition digit_val :: "char \<Rightarrow> nat option" where
  "digit_val d =
     (let c = (of_char d :: nat) in
      if 48 \<le> c \<and> c \<le> 57 then Some (c - 48)
      else if 97 \<le> c \<and> c \<le> 122 then Some (c - 97 + 10)
      else if 65 \<le> c \<and> c \<le> 90 then Some (c - 65 + 10)
      else None)"

definition cutoff64 :: "nat \<Rightarrow> nat" where
  "cutoff64 base = (if base < 2 then 0 else (2 ^ 64 - 1) div base + 1)"

text \<open>
  The loop of ParseUint (bit size 64): \<open>n\<close> is the accumulator. A character
  that is no digit of the base is a syntax error with value 0; an overflow is a range
  error with the largest \<^verbatim>\<open>uint64\<close>.
\<close>

fun parse_digits :: "nat \<Rightarrow> string \<Rightarrow> nat \<Rightarrow> nat \<times> NumError option" where
  "parse_digits base [] n = (n, None)"
| "parse_digits base (d # s) n =
     (case digit_val d of
        None \<Rightarrow> (0, Some ErrSyntax)
      | Some v \<Rightarrow>
          if base \<le> v then (0, Some ErrSyntax)
          else if cutoff64 base \<le> n then (2 ^ 64 - 1, Some ErrRange)
          else
            let n' = (n * base) mod 2 ^ 64;
                n1 = (n' + v) mod 2 ^ 64
            in if n1 < n' \<or> 2 ^ 64 - 1 < n1 then (2 ^ 64 - 1, Some ErrRange)
               else parse_digits base s n1)"

text \<open>
  \<^verbatim>\<open>strconv.ParseUint(s, base, 64)\<close> for the bases 2 to 36. Base 0
  (the base read from a prefix) is not used by this program and is not modelled: it is
  refused like any other base outside 2..36.
\<close>

definition ParseUint :: "string \<Rightarrow> nat \<Rightarrow> nat \<times> NumError option" where
  "ParseUint s base =
     (if length s < 1 then (0, Some ErrSyntax)
      else if 2 \<le> base \<and> base \<le> 36 then parse_digits base s 0
      else (0, Some ErrBase))"

text \<open>
  \<^verbatim>\<open>strconv.ParseInt(s, base, 64)\<close>: the sign is picked off, the
  rest is parsed unsigned, and the range is checked against \<open>2 ^ 63\<close>. On a
  range error the result is the nearest bound, not 0.
\<close>

definition ParseInt :: "string \<Rightarrow> nat \<Rightarrow> int64 \<times> NumError option" where
  "ParseInt s base =
     (case s of
        [] \<Rightarrow> (0, Some ErrSyntax)
      | c # r \<Rightarrow>
          let neg = (c = CHR ''-'');
              s' = (if c = CHR ''+'' \<or> c = CHR ''-'' then r else s);
              (un, err) = ParseUint s' base
          in if err \<noteq> None \<and> err \<noteq> Some ErrRange then (0, err)
             else if \<not> neg \<and> 2 ^ 63 \<le> un then (2 ^ 63 - 1, Some ErrRange)
             else if neg \<and> 2 ^ 63 < un then (- (2 ^ 63), Some ErrRange)
             else let n = (word_of_nat un :: int64) in (if neg then - n else n, None))"

text \<open>
  The digits of \<open>u\<close> in \<open>base\<close>, most significant first: the loop
  of \<^verbatim>\<open>strconv.formatBits\<close>, which fills its buffer from the right
  while \<open>u \<ge> base\<close>.
\<close>

function format_bits :: "nat \<Rightarrow> nat \<Rightarrow> string" where
  "format_bits base u =
     (if 2 \<le> base \<and> base \<le> u
      then format_bits base (u div base) @ [digits ! (u mod base)]
      else [digits ! u])"
  by pat_completeness auto
termination
  by (relation "measure snd") auto

text \<open>
  \<^verbatim>\<open>strconv.FormatInt(i, base)\<close>: a minus sign and the digits of
  the magnitude, which is \<open>- i\<close> taken in \<^verbatim>\<open>uint64\<close>.
\<close>

definition FormatInt :: "int64 \<Rightarrow> nat \<Rightarrow> string" where
  "FormatInt i base =
     (if sint i < 0 then CHR ''-'' # format_bits base (unat (- i))
      else format_bits base (unat i))"

text \<open>
  The verb \<^verbatim>\<open>%x\<close> of package fmt on an
  \<^verbatim>\<open>int64\<close> (no flags): lower-case hexadecimal digits of the
  magnitude, after a minus sign when the value is negative.
\<close>

definition fmt_x :: "int64 \<Rightarrow> string" where
  "fmt_x i =
     (if sint i < 0 then ''-'' @ format_bits 16 (unat (- i))
      else format_bits 16 (unat i))"

definition FormatBool :: "bool \<Rightarrow> string" where
  "FormatBool b = (if b then ''true'' else ''false'')"

declare format_bits.simps [simp del]

subsection \<open>The query string: net/url\<close>

definition upperhex :: string where
  "upperhex = ''0123456789ABCDEF''"

text \<open>\<^verbatim>\<open>shouldEscape\<close> in the mode of a query component: only the unreserved characters pass.\<close>

definition shouldEscape :: "char \<Rightarrow> bool" where
  "shouldEscape c =
     (let n = (of_char c :: nat) in
      if (65 \<le> n \<and> n \<le> 90) \<or> (97 \<le> n \<and> n \<le> 122) \<or> (48 \<le> n \<and> n \<le> 57) then False
      else if c = CHR ''-'' \<or> c = CHR ''_'' \<or> c = CHR ''.'' \<or> c = CHR ''~'' then False
      else True)"

definition escape_byte :: "char \<Rightarrow> string" where
  "escape_byte c =
     (if c = CHR '' '' then ''+''
      else if shouldEscape c
      then [CHR ''%'', upperhex ! (of_char c div 16), upperhex ! (of_char c mod 16)]
      else [c])"

definition QueryEscape :: "string \<Rightarrow> string" where
  "QueryEscape s = concat (map escape_byte s)"

text \<open>
  \<^verbatim>\<open>url.Values\<close> is a map from a key to its values, here an
  association list with distinct keys. \<^verbatim>\<open>Encode\<close> sorts the keys
  (byte order) and joins \<^verbatim>\<open>key=value\<close> pairs with
  \<^verbatim>\<open>&\<close>.
\<close>

fun bytes_less :: "string \<Rightarrow> string \<Rightarrow> bool" where
  "bytes_less [] [] = False"
| "bytes_less [] (y # ys) = True"
| "bytes_less (x # xs) [] = False"
| "bytes_less (x # xs) (y # ys) =
     ((of_char x :: nat) < of_char y \<or> (x = y \<and> bytes_less xs ys))"

fun insert_key ::
  "string \<times> string list \<Rightarrow> (string \<times> string list) list \<Rightarrow> (string \<times> string list) list" where
  "insert_key kv [] = [kv]"
| "insert_key kv (x # xs) =
     (if bytes_less (fst kv) (fst x) then kv # x # xs else x # insert_key kv xs)"

definition sort_keys :: "(string \<times> string list) list \<Rightarrow> (string \<times> string list) list" where
  "sort_keys v = foldr insert_key v []"

fun join_amp :: "string list \<Rightarrow> string" where
  "join_amp [] = []"
| "join_amp [x] = x"
| "join_amp (x # y # r) = x @ ''&'' @ join_amp (y # r)"

definition Values_Encode :: "(string \<times> string list) list \<Rightarrow> string" where
  "Values_Encode v =
     join_amp (concat (map (\<lambda>(k, vs). map (\<lambda>x. QueryEscape k @ ''='' @ QueryEscape x) vs)
       (sort_keys v)))"

subsection \<open>Requests, responses and the constants of the wire protocol\<close>

definition CommitDeltaHeader :: string where
  "CommitDeltaHeader = ''X-Commit-Delta''"

definition WriteHeadHeader :: string where
  "WriteHeadHeader = ''X-Write-Head''"

definition ReplicateClientIdlePoolSize :: nat where
  "ReplicateClientIdlePoolSize = 6"

definition StatusContinue :: nat where
  "StatusContinue = 100"

definition StatusNoContent :: nat where
  "StatusNoContent = 204"

definition CRLF :: string where
  "CRLF = [CHR 0x0D, CHR 0x0A]"

text \<open>Time is counted in seconds; \<^verbatim>\<open>time.Minute\<close> is sixty of them.\<close>

definition Minute :: nat where
  "Minute = 60"

text \<open>
  The fields of \<^verbatim>\<open>http.Request\<close> and
  \<^verbatim>\<open>http.Response\<close> the client touches. A header is the list of
  its key and value pairs, keys in canonical form as the parser of net/http leaves them;
  \<^verbatim>\<open>Get\<close> returns the first value of a key and the empty string
  for a key that is absent. \<open>Body\<close> is what
  \<^verbatim>\<open>io.Copy\<close> reads from the response body.
\<close>

record http_Request =
  Method :: string
  URL_Path :: string
  RawQuery :: string
  Header :: "(string \<times> string) list"
  TransferEncoding :: "string list"

record http_Response =
  StatusCode :: nat
  RespHeader :: "(string \<times> string) list"
  Body :: string
  Close :: bool

definition Header_Add :: "(string \<times> string) list \<Rightarrow> string \<Rightarrow> string \<Rightarrow> (string \<times> string) list" where
  "Header_Add h k v = h @ [(k, v)]"

definition Header_Get :: "(string \<times> string) list \<Rightarrow> string \<Rightarrow> string" where
  "Header_Get h k = (case map_of h k of None \<Rightarrow> [] | Some v \<Rightarrow> v)"

subsection \<open>Errors, transactions, results\<close>

text \<open>
  An error is either a value a collaborator returned (the resolver, the dialer, the
  transport, the HTTP parser or serializer), named by its message, or a value the
  client made itself with \<^verbatim>\<open>errors.New\<close>.
\<close>

datatype error = ExternalError string | ErrorsNew string

text \<open>
  \<^verbatim>\<open>replicaClientTransaction\<close>. A connection is a reference: the
  number of the transport in the store of the world below. \<open>None\<close> is the
  zero value of the Go field: a nil \<^verbatim>\<open>io.WriteCloser\<close>, a
  connection whose \<^verbatim>\<open>raw\<close> and \<^verbatim>\<open>buf\<close> are
  nil, a nil request. The chunked writer made by
  \<^verbatim>\<open>httputil.NewChunkedWriter(conn.buf)\<close> holds the connection
  whose buffer it writes to.
\<close>

record transaction =
  chunker :: "nat option"
  conn :: "nat option"
  request :: "http_Request option"

text \<open>
  Modelled from the spec: the declarations of
  \<^verbatim>\<open>journal.ReplicateOp\<close> and
  \<^verbatim>\<open>journal.ReplicateResult\<close> are not among the sources. The
  fields are the ones the client reads and writes; \<open>Result\<close> names the
  operation's result channel.
\<close>

record ReplicateResult =
  Error :: "error option"
  ErrorWriteHead :: int64
  Writer :: "transaction option"

record ReplicateOp =
  Journal :: string
  RouteToken :: string
  NewSpool :: bool
  WriteHead :: int64
  Result :: nat

subsection \<open>The world: connections, the idle pool, and what the client does to them\<close>

text \<open>
  The calls of \<^verbatim>\<open>net.Conn\<close> a client can make on a transport, and
  the events the world records in order: a call on a transport, a send on a result
  channel, and the signal to the endpoint that its resolution is stale.
\<close>

datatype net_call = SetReadDeadline "nat option" | NetWrite string | NetRead | NetClose

datatype event = InvalidateResolution | Raw nat net_call | Send nat ReplicateResult

text \<open>
  A connection (\<^verbatim>\<open>replicaClientConn\<close>): the read deadline of the
  transport (\<open>None\<close> is the zero time, no deadline), the bytes waiting in the
  buffered writer, and the writer's sticky error. The capacity of the buffered writer is
  not modelled: bytes reach the transport at \<^verbatim>\<open>Flush\<close>, in the
  order they were written.
\<close>

record conn_state =
  read_deadline :: "nat option"
  wbuf :: string
  werr :: "error option"

text \<open>A buffered channel of connections: its capacity and its queue.\<close>

record chan =
  cap :: nat
  queue :: "nat list"

text \<open>
  The world of one endpoint: the entry of \<^verbatim>\<open>idlePools\<close> under its
  base URL (\<open>None\<close> before the first client is made), the store of
  connections, the number the next dialled connection gets, and the events so far.
\<close>

record world =
  idlePool :: "chan option"
  conns :: "nat \<Rightarrow> conn_state"
  next_conn :: nat
  trace :: "event list"

text \<open>
  What the collaborators answer during one call: the resolver, the dialer, the
  endpoint's request builder (a request or nil, and an error or nil), the serializer
  of the request head, the transport at each flush, the clock, and the response the
  HTTP parser reads (or its error).
\<close>

record env =
  ResolveURL :: "error + string"
  Dial :: "string \<Rightarrow> error option"
  NewHTTPRequest :: "string \<Rightarrow> string \<Rightarrow> http_Request option \<times> error option"
  DumpRequest :: "http_Request \<Rightarrow> error + string"
  flush_fault :: "error option"
  now :: nat
  response :: "error + http_Response"
  flush_fault2 :: "error option"

text \<open>A call returns a value and the world it leaves, or panics (a nil dereference).\<close>

datatype 'a exec = Returned 'a world | Panicked world

definition emit :: "event \<Rightarrow> world \<Rightarrow> world" where
  "emit ev w = w\<lparr>trace := trace w @ [ev]\<rparr>"

definition send :: "nat \<Rightarrow> ReplicateResult \<Rightarrow> world \<Rightarrow> world" where
  "send ch r w = emit (Send ch r) w"

definition raw_SetReadDeadline :: "nat \<Rightarrow> nat option \<Rightarrow> world \<Rightarrow> world" where
  "raw_SetReadDeadline c d w =
     emit (Raw c (SetReadDeadline d))
       (w\<lparr>conns := (conns w)(c := (conns w c)\<lparr>read_deadline := d\<rparr>)\<rparr>)"

text \<open>\<^verbatim>\<open>bufio.Writer.Write\<close>: nothing is accepted once an error has stuck.\<close>

definition buf_Write :: "nat \<Rightarrow> string \<Rightarrow> world \<Rightarrow> world" where
  "buf_Write c bytes w =
     (case werr (conns w c) of
        Some e \<Rightarrow> w
      | None \<Rightarrow> w\<lparr>conns := (conns w)(c := (conns w c)\<lparr>wbuf := wbuf (conns w c) @ bytes\<rparr>)\<rparr>)"

text \<open>
  \<^verbatim>\<open>bufio.Writer.Flush\<close>: the stuck error if there is one; nothing
  to do on an empty buffer; else one write on the transport, which fails when the
  transport does.
\<close>

definition buf_Flush :: "nat \<Rightarrow> error option \<Rightarrow> world \<Rightarrow> error option \<times> world" where
  "buf_Flush c fault w =
     (case werr (conns w c) of
        Some e \<Rightarrow> (Some e, w)
      | None \<Rightarrow>
          if wbuf (conns w c) = [] then (None, w)
          else
            let w1 = emit (Raw c (NetWrite (wbuf (conns w c)))) w in
            (case fault of
               Some e \<Rightarrow> (Some e, w1\<lparr>conns := (conns w1)(c := (conns w1 c)\<lparr>werr := Some e\<rparr>)\<rparr>)
             | None \<Rightarrow> (None, w1\<lparr>conns := (conns w1)(c := (conns w1 c)\<lparr>wbuf := []\<rparr>)\<rparr>)))"

definition ReadResponse ::
  "nat \<Rightarrow> error + http_Response \<Rightarrow> world \<Rightarrow> (error + http_Response) \<times> world" where
  "ReadResponse c r w = (r, emit (Raw c NetRead) w)"

text \<open>
  The two operations of \<^verbatim>\<open>select\<close> with a
  \<^verbatim>\<open>default\<close> branch on a channel: a receive that takes the head
  of the queue if there is one, a send that appends if there is room. A nil channel is
  never ready.
\<close>

definition chan_recv :: "chan option \<Rightarrow> (nat \<times> chan option) option" where
  "chan_recv ch =
     (case ch of
        None \<Rightarrow> None
      | Some q \<Rightarrow> (case queue q of [] \<Rightarrow> None | c # rest \<Rightarrow> Some (c, Some (q\<lparr>queue := rest\<rparr>))))"

definition chan_send :: "chan option \<Rightarrow> nat \<Rightarrow> chan option option" where
  "chan_send ch c =
     (case ch of
        None \<Rightarrow> None
      | Some q \<Rightarrow>
          if length (queue q) < cap q then Some (Some (q\<lparr>queue := queue q @ [c]\<rparr>)) else None)"

definition fresh_conn :: conn_state where
  "fresh_conn = \<lparr>read_deadline = None, wbuf = [], werr = None\<rparr>"

text \<open>The world before the first client is made.\<close>

definition world0 :: world where
  "world0 = \<lparr>idlePool = None, conns = (\<lambda>c. fresh_conn), next_conn = 0, trace = []\<rparr>"

subsection \<open>The client\<close>

text \<open>
  \<^verbatim>\<open>NewReplicateClient\<close>: the pool of the endpoint is looked up,
  and made with the capacity \<^verbatim>\<open>ReplicateClientIdlePoolSize\<close> when
  it is not there yet.
\<close>

definition NewReplicateClient :: "world \<Rightarrow> world" where
  "NewReplicateClient w =
     (case idlePool w of
        Some q \<Rightarrow> w
      | None \<Rightarrow> w\<lparr>idlePool := Some \<lparr>cap = ReplicateClientIdlePoolSize, queue = []\<rparr>\<rparr>)"

text \<open>
  \<^verbatim>\<open>takeConn\<close>: an idle connection if the pool has one; else the
  address is resolved and dialled. Only a failed dial invalidates the resolution.
\<close>

definition takeConn :: "env \<Rightarrow> world \<Rightarrow> (error + nat) \<times> world" where
  "takeConn e w =
     (case chan_recv (idlePool w) of
        Some (c, p) \<Rightarrow> (Inr c, w\<lparr>idlePool := p\<rparr>)
      | None \<Rightarrow>
          (case ResolveURL e of
             Inl err \<Rightarrow> (Inl err, w)
           | Inr host \<Rightarrow>
               (case Dial e host of
                  Some err \<Rightarrow> (Inl err, emit InvalidateResolution w)
                | None \<Rightarrow>
                    (Inr (next_conn w),
                     w\<lparr>conns := (conns w)(next_conn w := fresh_conn),
                       next_conn := Suc (next_conn w)\<rparr>))))"

text \<open>
  \<^verbatim>\<open>putConn\<close>: the read deadline is cleared, and the connection is
  queued if the pool accepts it. The \<^verbatim>\<open>default\<close> branch is empty:
  a connection the pool does not accept is let go of.
\<close>

definition putConn :: "nat \<Rightarrow> world \<Rightarrow> world" where
  "putConn c w =
     (let w1 = raw_SetReadDeadline c None w in
      case chan_send (idlePool w1) c of
        Some p \<Rightarrow> w1\<lparr>idlePool := p\<rparr>
      | None \<Rightarrow> w1)"

text \<open>
  The handshake request (lines 79 to 86 of the source): the query arguments, the
  \<^verbatim>\<open>Expect\<close> header and the chunked transfer encoding are set on
  the request the endpoint built.
\<close>

definition handshake_request :: "ReplicateOp \<Rightarrow> http_Request \<Rightarrow> http_Request" where
  "handshake_request op req0 =
     (let queryArgs =
            [(''newSpool'', [FormatBool (NewSpool op)]),
             (''writeHead'', [FormatInt (WriteHead op) 10]),
             (''routeToken'', [RouteToken op])]
      in req0\<lparr>RawQuery := Values_Encode queryArgs,
               Header := Header_Add (Header req0) ''Expect'' ''100-continue'',
               TransferEncoding := [''chunked'']\<rparr>)"

text \<open>
  The write head a rejecting peer reports (lines 110 to 117): the header is parsed in
  base 16 when it is not empty; a parse error is logged, and the value ParseInt
  returned with it is kept.
\<close>

definition remoteWriteHead_of :: "http_Response \<Rightarrow> int64" where
  "remoteWriteHead_of resp =
     (let s = Header_Get (RespHeader resp) WriteHeadHeader
      in if s \<noteq> [] then fst (ParseInt s 16) else 0)"

text \<open>
  \<^verbatim>\<open>start\<close>, the body of the goroutine
  \<^verbatim>\<open>Replicate\<close> spawns. The error of the request builder is
  discarded; a nil request panics at \<^verbatim>\<open>req.URL\<close>. The transaction
  \<^verbatim>\<open>Replicate\<close> makes has zero fields but for its client; its
  fields are set on the path that delivers it, and it is sent as the write handle.
\<close>

definition start :: "env \<Rightarrow> ReplicateOp \<Rightarrow> world \<Rightarrow> unit exec" where
  "start e op w =
     (case takeConn e w of
        (Inl err, w1) \<Rightarrow>
          Returned () (send (Result op) \<lparr>Error = Some err, ErrorWriteHead = 0, Writer = None\<rparr> w1)
      | (Inr c, w1) \<Rightarrow>
          (case fst (NewHTTPRequest e ''REPLICATE'' (''/'' @ Journal op)) of
             None \<Rightarrow> Panicked w1
           | Some req0 \<Rightarrow>
               let req = handshake_request op req0 in
               (case DumpRequest e req of
                  Inl err \<Rightarrow>
                    Returned () (send (Result op)
                      \<lparr>Error = Some err, ErrorWriteHead = 0, Writer = None\<rparr> w1)
                | Inr reqBytes \<Rightarrow>
                    (case buf_Flush c (flush_fault e) (buf_Write c reqBytes w1) of
                       (Some err, w2) \<Rightarrow>
                         Returned () (send (Result op)
                           \<lparr>Error = Some err, ErrorWriteHead = 0, Writer = None\<rparr> w2)
                     | (None, w2) \<Rightarrow>
                         (case ReadResponse c (response e)
                                 (raw_SetReadDeadline c (Some (now e + Minute)) w2) of
                            (Inl err, w3) \<Rightarrow>
                              Returned () (send (Result op)
                                \<lparr>Error = Some err, ErrorWriteHead = 0, Writer = None\<rparr> w3)
                          | (Inr resp, w3) \<Rightarrow>
                              if StatusCode resp \<noteq> StatusContinue then
                                let body = Body resp;
                                    remoteWriteHead = remoteWriteHead_of resp;
                                    (ferr, w4) =
                                      buf_Flush c (flush_fault2 e)
                                        (buf_Write c (''0'' @ CRLF @ CRLF) w3);
                                    w5 = (if \<not> Close resp \<and> ferr = None then putConn c w4 else w4)
                                in Returned () (send (Result op)
                                     \<lparr>Error = Some (ErrorsNew body),
                                      ErrorWriteHead = remoteWriteHead, Writer = None\<rparr> w5)
                              else
                                let w4 = raw_SetReadDeadline c None w3;
                                    t = \<lparr>chunker = Some c, conn = Some c, request = Some req\<rparr>
                                in Returned () (send (Result op)
                                     \<lparr>Error = None, ErrorWriteHead = 0, Writer = Some t\<rparr> w4))))))"

text \<open>\<^verbatim>\<open>Replicate\<close> runs \<^verbatim>\<open>start\<close> in a goroutine of its own; the model runs it.\<close>

definition Replicate :: "env \<Rightarrow> ReplicateOp \<Rightarrow> world \<Rightarrow> unit exec" where
  "Replicate e op w = start e op w"

text \<open>
  The chunked writer of net/http/httputil: \<^verbatim>\<open>Write\<close> frames its
  argument as one chunk (nothing at all for an empty argument),
  \<^verbatim>\<open>Close\<close> writes the last chunk.
\<close>

definition chunk_Write :: "nat \<Rightarrow> string \<Rightarrow> world \<Rightarrow> (error + nat) \<times> world" where
  "chunk_Write c p w =
     (if p = [] then (Inr 0, w)
      else
        (case werr (conns w c) of
           Some e \<Rightarrow> (Inl e, w)
         | None \<Rightarrow>
             (Inr (length p), buf_Write c (format_bits 16 (length p) @ CRLF @ p @ CRLF) w)))"

definition chunk_Close :: "nat \<Rightarrow> world \<Rightarrow> world" where
  "chunk_Close c w = buf_Write c (''0'' @ CRLF) w"

definition Write :: "transaction \<Rightarrow> string \<Rightarrow> world \<Rightarrow> (error + nat) exec" where
  "Write t p w =
     (case chunker t of
        None \<Rightarrow> Panicked w
      | Some k \<Rightarrow> (case chunk_Write k p w of (r, w1) \<Rightarrow> Returned r w1))"

text \<open>
  The trailer of line 174: the header name, a colon and a space, the delta under the
  verb \<^verbatim>\<open>%x\<close>, and two line ends.
\<close>

definition commit_trailer :: "int64 \<Rightarrow> string" where
  "commit_trailer delta = CommitDeltaHeader @ '': '' @ fmt_x delta @ CRLF @ CRLF"

definition Commit :: "env \<Rightarrow> transaction \<Rightarrow> int64 \<Rightarrow> world \<Rightarrow> (error option) exec" where
  "Commit e t delta w =
     (case chunker t of
        None \<Rightarrow> Panicked w
      | Some k \<Rightarrow>
          let w1 = chunk_Close k w in
          (case conn t of
             None \<Rightarrow> Panicked w1
           | Some c \<Rightarrow>
               (case buf_Flush c (flush_fault e)
                       (buf_Write c (commit_trailer delta) w1) of
                  (Some err, w2) \<Rightarrow> Returned (Some err) w2
                | (None, w2) \<Rightarrow>
                    (case ReadResponse c (response e)
                            (raw_SetReadDeadline c (Some (now e + Minute)) w2) of
                       (Inl err, w3) \<Rightarrow> Returned (Some err) w3
                     | (Inr resp, w3) \<Rightarrow>
                         let err = (if StatusCode resp \<noteq> StatusNoContent
                                    then Some (ErrorsNew (Body resp)) else None);
                             w4 = (if \<not> Close resp then putConn c w3 else w3)
                         in Returned err w4))))"

subsection \<open>Observing a world\<close>

text \<open>The values sent on channel \<open>ch\<close>, in order, among the events.\<close>

fun sends :: "nat \<Rightarrow> event list \<Rightarrow> ReplicateResult list" where
  "sends ch [] = []"
| "sends ch (Send ch' r # evs) = (if ch' = ch then r # sends ch evs else sends ch evs)"
| "sends ch (InvalidateResolution # evs) = sends ch evs"
| "sends ch (Raw c k # evs) = sends ch evs"

text \<open>
  The write handles sent on any result channel, in order, among the events.
\<close>

fun writers :: "event list \<Rightarrow> transaction list" where
  "writers [] = []"
| "writers (Send ch r # evs) = (case Writer r of Some t \<Rightarrow> t # writers evs | None \<Rightarrow> writers evs)"
| "writers (InvalidateResolution # evs) = writers evs"
| "writers (Raw c k # evs) = writers evs"

text \<open>
  The write handles delivered between the world \<open>w\<close> and the later world
  \<open>w'\<close>.
\<close>

definition delivered :: "world \<Rightarrow> world \<Rightarrow> transaction list" where
  "delivered w w' = drop (length (writers (trace w))) (writers (trace w'))"

text \<open>The connections waiting in the idle pool.\<close>

definition pool_conns :: "world \<Rightarrow> nat list" where
  "pool_conns w = (case idlePool w of None \<Rightarrow> [] | Some q \<Rightarrow> queue q)"

text \<open>
  Whether a send on the idle pool would succeed: the pool exists and is not full.
\<close>

definition pool_has_room :: "world \<Rightarrow> bool" where
  "pool_has_room w = (case idlePool w of None \<Rightarrow> False | Some q \<Rightarrow> length (queue q) < cap q)"

text \<open>
  The idle pool, when it exists, has the capacity
  \<^verbatim>\<open>NewReplicateClient\<close> gives it and holds no more connections
  than that.
\<close>

definition pool_ok :: "world \<Rightarrow> bool" where
  "pool_ok w =
     (case idlePool w of
        None \<Rightarrow> True
      | Some q \<Rightarrow> cap q = ReplicateClientIdlePoolSize \<and> length (queue q) \<le> cap q)"

text \<open>
  The world a call leaves behind, whether it returned or panicked.
\<close>

definition world_of :: "'a exec \<Rightarrow> world" where
  "world_of x = (case x of Returned r w \<Rightarrow> w | Panicked w \<Rightarrow> w)"

subsection \<open>Using the client as the protocol intends\<close>

text \<open>
  A sequence of releases to the pool, in order.
\<close>

definition release_all :: "nat list \<Rightarrow> world \<Rightarrow> world" where
  "release_all cs w = foldl (\<lambda>w c. putConn c w) w cs"

text \<open>
  The worlds the client reaches when it is used as the protocol intends, with the handles
  of the transactions that are streaming. Clients are made, operations are replicated,
  and a handle that was delivered is written to and then committed once: the commit ends
  its transaction. Each call is one step: connections are never shared between two
  transactions, and the pool is a channel, so the steps of concurrent goroutines on other
  connections commute with it. A call that panics ends the process and has no successor.
\<close>

inductive reachable :: "world \<Rightarrow> transaction list \<Rightarrow> bool" where
  at_init: "reachable world0 []"
| by_client: "reachable w ts \<Longrightarrow> reachable (NewReplicateClient w) ts"
| by_replicate:
    "reachable w ts \<Longrightarrow> Replicate e op w = Returned () w' \<Longrightarrow> reachable w' (delivered w w' @ ts)"
| by_write: "reachable w ts \<Longrightarrow> t \<in> set ts \<Longrightarrow> Write t p w = Returned r w' \<Longrightarrow> reachable w' ts"
| by_commit:
    "reachable w ts \<Longrightarrow> t \<in> set ts \<Longrightarrow> Commit e t delta w = Returned r w' \<Longrightarrow>
       reachable w' (removeAll t ts)"

subsection \<open>The invariant of the reachable worlds\<close>

text \<open>
  The connections the streaming transactions hold.
\<close>

definition owned :: "transaction list \<Rightarrow> nat list" where
  "owned ts = concat (map (\<lambda>t. case conn t of None \<Rightarrow> [] | Some c \<Rightarrow> [c]) ts)"

text \<open>
  The world \<open>w'\<close> differs from \<open>w\<close> at most in the state of
  connection \<open>c\<close> and in events that deliver no handle.
\<close>

definition same_but :: "nat \<Rightarrow> world \<Rightarrow> world \<Rightarrow> bool" where
  "same_but c w w' =
     (idlePool w' = idlePool w \<and> next_conn w' = next_conn w
      \<and> (\<forall>c'. c' \<noteq> c \<longrightarrow> conns w' c' = conns w c')
      \<and> writers (trace w') = writers (trace w))"

text \<open>
  No connection is both idle and held or queued twice, every one of them was dialled, and
  none has a read deadline.
\<close>

definition pool_inv :: "world \<Rightarrow> nat list \<Rightarrow> bool" where
  "pool_inv w os =
     (distinct (pool_conns w @ os)
      \<and> (\<forall>c\<in>set (pool_conns w @ os). c < next_conn w \<and> read_deadline (conns w c) = None))"

text \<open>
  A handle as \<^verbatim>\<open>start\<close> delivers it: the chunk framer writes to
  the connection the transaction holds.
\<close>

definition open_handle :: "transaction \<Rightarrow> bool" where
  "open_handle t = (case chunker t of None \<Rightarrow> False | Some c \<Rightarrow> conn t = Some c)"

text \<open>
  The invariant of the reachable worlds.
\<close>

definition sys_inv :: "world \<Rightarrow> transaction list \<Rightarrow> bool" where
  "sys_inv w ts = (pool_inv w (owned ts) \<and> (\<forall>t\<in>set ts. open_handle t))"

subsection \<open>Peers and worlds to run the client against\<close>

text \<open>
  A request builder and a serializer of the request head that always succeed, and an
  environment in which resolution, dial and flushes succeed and the peer answers
  \<open>r\<close>.
\<close>

definition plain_request :: "string \<Rightarrow> string \<Rightarrow> http_Request option \<times> error option" where
  "plain_request m p =
     (Some \<lparr>Method = m, URL_Path = p, RawQuery = [], Header = [], TransferEncoding = []\<rparr>, None)"

definition request_head :: "http_Request \<Rightarrow> error + string" where
  "request_head r = Inr (Method r @ '' '' @ URL_Path r @ ''?'' @ RawQuery r @ CRLF @ CRLF)"

definition peer_env :: "error + http_Response \<Rightarrow> env" where
  "peer_env r =
     \<lparr>ResolveURL = Inr ''peer:8081'', Dial = (\<lambda>host. None), NewHTTPRequest = plain_request,
      DumpRequest = request_head, flush_fault = None, now = 1000, response = r,
      flush_fault2 = None\<rparr>"

definition reply :: "nat \<Rightarrow> (string \<times> string) list \<Rightarrow> string \<Rightarrow> error + http_Response" where
  "reply code hs b = Inr \<lparr>StatusCode = code, RespHeader = hs, Body = b, Close = False\<rparr>"

definition an_op :: ReplicateOp where
  "an_op = \<lparr>Journal = ''a/journal'', RouteToken = ''tok en'', NewSpool = True,
            WriteHead = 1234, Result = 7\<rparr>"

text \<open>A second operation, with a result channel of its own.\<close>

definition another_op :: ReplicateOp where
  "another_op = an_op\<lparr>Result := 8\<rparr>"

text \<open>A peer that rejects the handshake with a conflict and reports its write head as \<open>h\<close>.\<close>

definition conflict_env :: "string \<Rightarrow> env" where
  "conflict_env h = peer_env (reply 409 [(''X-Write-Head'', h)] ''conflict'')"

text \<open>
  A request builder that fails: a nil request and an error.
\<close>

definition nil_request :: "string \<Rightarrow> string \<Rightarrow> http_Request option \<times> error option" where
  "nil_request m p = (None, Some (ExternalError ''no address''))"

text \<open>
  An endpoint whose address can no longer be resolved: resolution fails and so does the
  request builder.
\<close>

definition unavailable_env :: env where
  "unavailable_env = (peer_env (reply 100 [] []))
     \<lparr>ResolveURL := Inl (ExternalError ''no address''), NewHTTPRequest := nil_request\<rparr>"

text \<open>
  A peer whose address resolves but refuses the connection.
\<close>

definition refused_env :: env where
  "refused_env = (peer_env (reply 100 [] []))\<lparr>Dial := (\<lambda>host. Some (ExternalError ''connection refused''))\<rparr>"

text \<open>
  An endpoint whose address cannot be resolved.
\<close>

definition unresolved_env :: env where
  "unresolved_env = (peer_env (reply 100 [] []))\<lparr>ResolveURL := Inl (ExternalError ''no address'')\<rparr>"

text \<open>
  A peer whose connection breaks when the client flushes.
\<close>

definition broken_pipe_env :: env where
  "broken_pipe_env = (peer_env (reply 204 [] []))\<lparr>flush_fault := Some (ExternalError ''broken pipe'')\<rparr>"

text \<open>
  A peer that never answers: reading the response times out.
\<close>

definition timeout_env :: env where
  "timeout_env = peer_env (Inl (ExternalError ''i/o timeout''))"

text \<open>
  The world after a handshake that succeeded: the transaction streams on connection 0.
\<close>

definition streaming_world :: world where
  "streaming_world = world_of (start (peer_env (reply 100 [] [])) an_op (NewReplicateClient world0))"

text \<open>
  The write handle that handshake delivered.
\<close>

definition a_handle :: transaction where
  "a_handle = \<lparr>chunker = Some 0, conn = Some 0,
     request = Some (handshake_request an_op
       \<lparr>Method = ''REPLICATE'', URL_Path = ''/a/journal'', RawQuery = [], Header = [],
        TransferEncoding = []\<rparr>)\<rparr>"

text \<open>
  The world after one payload was written through the handle.
\<close>

definition written_world :: world where
  "written_world = world_of (Write a_handle ''hi'' streaming_world)"

text \<open>
  The world after the transaction of \<open>a_handle\<close> was committed and accepted:
  its connection is back in the pool.
\<close>

definition committed_world :: world where
  "committed_world = world_of (Commit (peer_env (reply 204 [] [])) a_handle 5 streaming_world)"

text \<open>
  A transaction whose handshake never completed: every field has its zero value.
\<close>

definition nil_handle :: transaction where
  "nil_handle = \<lparr>chunker = None, conn = None, request = None\<rparr>"

text \<open>
  Eight connections to release, two more than the pool holds.
\<close>

definition eight_conns :: "nat list" where
  "eight_conns = [0, 1, 2, 3, 4, 5, 6, 7]"

section \<open>Properties\<close>

lemmas prim_defs = emit_def send_def raw_SetReadDeadline_def buf_Write_def buf_Flush_def
  ReadResponse_def chan_recv_def chan_send_def fresh_conn_def NewReplicateClient_def
  takeConn_def putConn_def
lemmas fixture_defs = world0_def plain_request_def request_head_def peer_env_def an_op_def reply_def
lemmas const_defs = CommitDeltaHeader_def WriteHeadHeader_def ReplicateClientIdlePoolSize_def
  StatusContinue_def StatusNoContent_def Minute_def
lemmas parse_defs = ParseInt_def ParseUint_def digit_val_def cutoff64_def

subsection \<open>The worlds of the examples, computed\<close>

lemma streaming_world_eq:
  "streaming_world =
     \<lparr>idlePool = Some \<lparr>cap = 6, queue = []\<rparr>,
      conns = (\<lambda>c. fresh_conn),
      next_conn = 1,
      trace = [Raw 0 (NetWrite (''REPLICATE /a/journal?'' @ RawQuery (handshake_request an_op
                 \<lparr>Method = ''REPLICATE'', URL_Path = ''/a/journal'', RawQuery = [], Header = [],
                  TransferEncoding = []\<rparr>) @ CRLF @ CRLF)),
               Raw 0 (SetReadDeadline (Some 1060)), Raw 0 NetRead,
               Raw 0 (SetReadDeadline None),
               Send 7 \<lparr>Error = None, ErrorWriteHead = 0, Writer = Some a_handle\<rparr>]\<rparr>"
  by (simp add: streaming_world_def a_handle_def world_of_def start_def prim_defs fixture_defs
      const_defs Let_def handshake_request_def fun_eq_iff)

lemma commit_trailer_5: "commit_trailer 5 = ''X-Commit-Delta: 5'' @ CRLF @ CRLF"
  by (simp add: commit_trailer_def CommitDeltaHeader_def fmt_x_def format_bits.simps digits_def)

lemma committed_world_eq:
  "committed_world =
     \<lparr>idlePool = Some \<lparr>cap = 6, queue = [0]\<rparr>,
      conns = (\<lambda>c. fresh_conn),
      next_conn = 1,
      trace = trace streaming_world @
        [Raw 0 (NetWrite (''0'' @ CRLF @ ''X-Commit-Delta: 5'' @ CRLF @ CRLF)),
         Raw 0 (SetReadDeadline (Some 1060)), Raw 0 NetRead, Raw 0 (SetReadDeadline None)]\<rparr>"
  by (simp add: committed_world_def world_of_def Commit_def a_handle_def streaming_world_eq
      commit_trailer_5 chunk_Close_def prim_defs fixture_defs const_defs Let_def fun_eq_iff)

lemma written_world_eq:
  "written_world = streaming_world\<lparr>conns := (\<lambda>c. fresh_conn)
     (0 := \<lparr>read_deadline = None, wbuf = ''2'' @ CRLF @ ''hi'' @ CRLF, werr = None\<rparr>)\<rparr>"
  by (simp add: written_world_def world_of_def Write_def chunk_Write_def a_handle_def
      streaming_world_eq buf_Write_def fresh_conn_def format_bits.simps digits_def)

lemma release_8:
  "release_all eight_conns (NewReplicateClient world0) =
     \<lparr>idlePool = Some \<lparr>cap = 6, queue = [0, 1, 2, 3, 4, 5]\<rparr>,
      conns = (\<lambda>c. fresh_conn), next_conn = 0,
      trace = map (\<lambda>c. Raw c (SetReadDeadline None)) [0, 1, 2, 3, 4, 5, 6, 7]\<rparr>"
  by (simp add: release_all_def eight_conns_def prim_defs world0_def const_defs Let_def fun_eq_iff)

subsection \<open>Digits: what is formatted is parsed back\<close>

lemma digit_val_digits: "v < 36 \<Longrightarrow> digit_val (digits ! v) = Some v"
proof -
  have "\<forall>v<36. digit_val (digits ! v) = Some v"
    unfolding digits_def digit_val_def by (simp add: numeral_eq_Suc All_less_Suc)
  then show "v < 36 \<Longrightarrow> digit_val (digits ! v) = Some v" by blast
qed

lemma digits_not_sign: "v < 36 \<Longrightarrow> digits ! v \<noteq> CHR ''-'' \<and> digits ! v \<noteq> CHR ''+''"
proof -
  have "\<forall>v<36. digits ! v \<noteq> CHR ''-'' \<and> digits ! v \<noteq> CHR ''+''"
    unfolding digits_def by (simp add: numeral_eq_Suc All_less_Suc)
  then show "v < 36 \<Longrightarrow> digits ! v \<noteq> CHR ''-'' \<and> digits ! v \<noteq> CHR ''+''" by blast
qed

lemma digits_unreserved: "v < 36 \<Longrightarrow> escape_byte (digits ! v) = [digits ! v]"
proof -
  have "\<forall>v<36. escape_byte (digits ! v) = [digits ! v]"
    unfolding digits_def escape_byte_def shouldEscape_def by (simp add: numeral_eq_Suc All_less_Suc)
  then show "v < 36 \<Longrightarrow> escape_byte (digits ! v) = [digits ! v]" by blast
qed

lemma parse_digits_append:
  "parse_digits b (s @ t) n =
     (case parse_digits b s n of (m, None) \<Rightarrow> parse_digits b t m | (m, Some e) \<Rightarrow> (m, Some e))"
  by (induction s arbitrary: n) (auto simp: Let_def split: option.splits)

lemma cutoff64_gt: "2 \<le> b \<Longrightarrow> u < 2 ^ 64 \<Longrightarrow> u div b < cutoff64 b"
proof -
  assume b: "2 \<le> b" and u: "u < 2 ^ 64"
  from u have "u \<le> 2 ^ 64 - 1" by simp
  then have "u div b \<le> (2 ^ 64 - 1) div b" by (rule div_le_mono)
  with b show ?thesis by (simp add: cutoff64_def)
qed

lemma parse_digits_step:
  assumes "2 \<le> b" "v < b" "b \<le> 36" "m < cutoff64 b" "m * b + v < 2 ^ 64"
  shows "parse_digits b [digits ! v] m = (m * b + v, None)"
proof -
  from assms have dv: "digit_val (digits ! v) = Some v" by (simp add: digit_val_digits)
  have "m * b \<le> m * b + v" by simp
  with assms(5) have mb: "m * b < 2 ^ 64" by linarith
  show ?thesis using assms dv mb by (simp add: Let_def)
qed

lemma format_bits_rec:
  "2 \<le> b \<Longrightarrow> b \<le> u \<Longrightarrow> format_bits b u = format_bits b (u div b) @ [digits ! (u mod b)]"
  by (subst format_bits.simps) simp

lemma format_bits_base: "\<not> (2 \<le> b \<and> b \<le> u) \<Longrightarrow> format_bits b u = [digits ! u]"
  by (subst format_bits.simps) (simp only: if_False)

lemma parse_format_bits:
  "2 \<le> b \<Longrightarrow> b \<le> 36 \<Longrightarrow> u < 2 ^ 64 \<Longrightarrow> parse_digits b (format_bits b u) 0 = (u, None)"
proof (induction b u rule: format_bits.induct)
  case (1 base u)
  show ?case
  proof (cases "base \<le> u")
    case True
    have lt: "u div base < 2 ^ 64" using "1.prems" 
      by (meson div_le_dividend le_less_trans)
    have ih: "parse_digits base (format_bits base (u div base)) 0 = (u div base, None)"
      using "1.IH" "1.prems" True lt by simp
    have step: "parse_digits base [digits ! (u mod base)] (u div base) = (u div base * base + u mod base, None)"
      using "1.prems" by (intro parse_digits_step) (auto simp: cutoff64_gt)
    show ?thesis
      using True "1.prems" ih step
      by (simp add: format_bits_rec parse_digits_append)
  next
    case False
    then have "parse_digits base [digits ! u] 0 = (0 * base + u, None)"
      using "1.prems" by (intro parse_digits_step) (auto simp: cutoff64_def)
    then show ?thesis using False by (simp add: format_bits_base)
  qed
qed

lemma format_bits_nonempty: "format_bits b u \<noteq> []"
  by (subst format_bits.simps) simp

lemma format_bits_digits:
  "2 \<le> b \<Longrightarrow> b \<le> 36 \<Longrightarrow> c \<in> set (format_bits b u) \<Longrightarrow> \<exists>v<36. c = digits ! v"
proof (induction b u rule: format_bits.induct)
  case (1 base u)
  show ?case
  proof (cases "base \<le> u")
    case True
    with "1.prems" have "c \<in> set (format_bits base (u div base)) \<or> c = digits ! (u mod base)"
      by (auto simp: format_bits_rec)
    then show ?thesis
    proof
      assume "c \<in> set (format_bits base (u div base))"
      with "1.IH" "1.prems" True show ?thesis by simp
    next
      assume c: "c = digits ! (u mod base)"
      have "u mod base < base" using "1.prems" by simp
      with "1.prems" have "u mod base < 36" by linarith
      with c show ?thesis by blast
    qed
  next
    case False
    with "1.prems" have "c = digits ! u" by (simp add: format_bits_base)
    moreover from False "1.prems" have "u < 36" by simp
    ultimately show ?thesis by blast
  qed
qed

lemma format_bits_hd:
  assumes "2 \<le> b" "b \<le> 36"
  obtains c r where "format_bits b u = c # r" "c \<noteq> CHR ''-''" "c \<noteq> CHR ''+''"
proof -
  obtain c r where cr: "format_bits b u = c # r"
    using format_bits_nonempty [of b u] by (cases "format_bits b u") auto
  then have "c \<in> set (format_bits b u)" by simp
  with assms obtain v where "v < 36" "c = digits ! v" using format_bits_digits by blast
  then have "c \<noteq> CHR ''-''" "c \<noteq> CHR ''+''" using digits_not_sign by auto
  with cr that show ?thesis by blast
qed

lemma ParseUint_format_bits:
  "2 \<le> b \<Longrightarrow> b \<le> 36 \<Longrightarrow> u < 2 ^ 64 \<Longrightarrow> ParseUint (format_bits b u) b = (u, None)"
  using format_bits_nonempty [of b u]
  by (simp add: ParseUint_def parse_format_bits less_Suc_eq_0_disj)

lemma uint_of_sint_nonneg:
  fixes i :: "64 word"
  assumes "\<not> sint i < 0"
  shows "uint i = sint i"
proof -
  have r: "sint i < 2 ^ 63" using sint_lt [of i] by simp
  have "uint i = sint i mod 2 ^ 64" using uint_sint [of i] by (simp add: take_bit_eq_mod)
  also have "\<dots> = sint i" using assms r by (intro mod_pos_pos_trivial) auto
  finally show ?thesis .
qed

lemma uint_neg_of_sint_neg:
  fixes i :: "64 word"
  assumes "sint i < 0"
  shows "uint (- i) = - sint i"
proof -
  have r: "- (2 ^ 63) \<le> sint i" using sint_ge [of i] by simp
  have u: "uint i = sint i mod 2 ^ 64" using uint_sint [of i] by (simp add: take_bit_eq_mod)
  have "uint (- i) = (- uint i) mod 2 ^ 64" by (simp add: uint_word_ariths)
  also have "\<dots> = (- (sint i mod 2 ^ 64)) mod 2 ^ 64" by (simp only: u)
  also have "\<dots> = (- sint i) mod 2 ^ 64" by (simp add: mod_minus_eq)
  also have "\<dots> = - sint i" using assms r by (intro mod_pos_pos_trivial) auto
  finally show ?thesis .
qed

lemma unat_neg_bound: "sint (i :: 64 word) < 0 \<Longrightarrow> unat (- i) \<le> 2 ^ 63"
proof -
  assume a: "sint i < 0"
  have r: "- (2 ^ 63) \<le> sint i" using sint_ge [of i] by simp
  have "unat (- i) = nat (uint (- i))" by simp
  also have "\<dots> = nat (- sint i)" by (simp only: uint_neg_of_sint_neg [OF a])
  finally show ?thesis using r by simp
qed

lemma unat_pos_bound: "\<not> sint (i :: 64 word) < 0 \<Longrightarrow> unat i < 2 ^ 63"
proof -
  assume a: "\<not> sint i < 0"
  have r: "sint i < 2 ^ 63" using sint_lt [of i] by simp
  have "unat i = nat (uint i)" by simp
  also have "\<dots> = nat (sint i)" by (simp only: uint_of_sint_nonneg [OF a])
  finally show ?thesis using r a by simp
qed

lemma ParseInt_FormatInt:
  assumes b: "2 \<le> b" "b \<le> 36"
  shows "ParseInt (FormatInt i b) b = (i, None)"
proof (cases "sint i < 0")
  case True
  have u: "unat (- i) < 2 ^ 64" using unsigned_less [of "- i"] by simp
  show ?thesis using True b ParseUint_format_bits [OF b u] unat_neg_bound [OF True]
    by (simp add: FormatInt_def ParseInt_def)
next
  case False
  have u: "unat i < 2 ^ 64" using unsigned_less [of i] by simp
  obtain c r where cr: "format_bits b (unat i) = c # r" "c \<noteq> CHR ''-''" "c \<noteq> CHR ''+''"
    using format_bits_hd [OF b] by blast
  show ?thesis using False b ParseUint_format_bits [OF b u] unat_pos_bound [OF False] cr
    by (simp add: FormatInt_def ParseInt_def)
qed

lemma concat_map_singleton_id: "\<forall>c\<in>set s. f c = [c] \<Longrightarrow> concat (map f s) = s"
  by (induction s) auto

lemma QueryEscape_format_bits:
  "2 \<le> b \<Longrightarrow> b \<le> 36 \<Longrightarrow> QueryEscape (format_bits b u) = format_bits b u"
proof -
  assume b: "2 \<le> b" "b \<le> 36"
  have "\<forall>c\<in>set (format_bits b u). escape_byte c = [c]"
    using format_bits_digits [OF b] digits_unreserved by blast
  then show ?thesis by (simp add: QueryEscape_def concat_map_singleton_id)
qed

subsection \<open>The encodings of offsets\<close>

lemma fmt_x_FormatInt: "fmt_x i = FormatInt i 16"
  by (simp add: fmt_x_def FormatInt_def)

lemma ParseInt_fmt_x: "ParseInt (fmt_x i) 16 = (i, None)"
  by (simp add: fmt_x_FormatInt ParseInt_FormatInt)

lemma FormatInt_nonempty: "FormatInt i b \<noteq> []"
  by (simp add: FormatInt_def format_bits_nonempty)

lemma QueryEscape_FormatInt:
  "2 \<le> b \<Longrightarrow> b \<le> 36 \<Longrightarrow> QueryEscape (FormatInt i b) = FormatInt i b"
  using QueryEscape_format_bits [of b]
  by (simp add: FormatInt_def) (simp add: QueryEscape_def escape_byte_def shouldEscape_def)

lemma QueryEscape_FormatBool: "QueryEscape (FormatBool x) = FormatBool x"
  by (simp add: FormatBool_def QueryEscape_def escape_byte_def shouldEscape_def)

lemma RawQuery_handshake_request:
  "RawQuery (handshake_request op req0) =
     ''newSpool='' @ FormatBool (NewSpool op) @ ''&routeToken='' @ QueryEscape (RouteToken op)
       @ ''&writeHead='' @ FormatInt (WriteHead op) 10"
  by (simp add: handshake_request_def Values_Encode_def sort_keys_def
      QueryEscape_FormatInt QueryEscape_FormatBool)
     (simp add: QueryEscape_def escape_byte_def shouldEscape_def)

text \<open>
  C7. The request's \<^verbatim>\<open>writeHead\<close> query parameter is the decimal
  text of the write head (which ParseInt reads back in base 10); the
  \<^verbatim>\<open>X-Write-Head\<close> header is read in base 16, so the hexadecimal
  text of any offset is read back as that offset; the
  \<^verbatim>\<open>X-Commit-Delta\<close> trailer carries the delta in hexadecimal. The
  two encodings differ: 255 is written \<^verbatim>\<open>255\<close> in the query and
  \<^verbatim>\<open>ff\<close> in the trailer, and the text
  \<^verbatim>\<open>255\<close> read as a header is 597.
\<close>

theorem C7_offset_encodings:
  "RawQuery (handshake_request op req0) =
     ''newSpool='' @ FormatBool (NewSpool op) @ ''&routeToken='' @ QueryEscape (RouteToken op)
       @ ''&writeHead='' @ FormatInt (WriteHead op) 10
   \<and> ParseInt (FormatInt (WriteHead op) 10) 10 = (WriteHead op, None)
   \<and> remoteWriteHead_of (resp\<lparr>RespHeader := [(WriteHeadHeader, fmt_x n)]\<rparr>) = n
   \<and> commit_trailer delta = ''X-Commit-Delta: '' @ fmt_x delta @ CRLF @ CRLF
   \<and> ParseInt (fmt_x delta) 16 = (delta, None)
   \<and> FormatInt 255 10 = ''255'' \<and> fmt_x 255 = ''ff'' \<and> fmt_x (- 255) = ''-ff''
   \<and> ParseInt ''255'' 16 = (597, None)"
proof -
  have q: "RawQuery (handshake_request op req0) =
     ''newSpool='' @ FormatBool (NewSpool op) @ ''&routeToken='' @ QueryEscape (RouteToken op)
       @ ''&writeHead='' @ FormatInt (WriteHead op) 10"
    by (rule RawQuery_handshake_request)
  have d: "ParseInt (FormatInt (WriteHead op) 10) 10 = (WriteHead op, None)"
    by (simp add: ParseInt_FormatInt)
  have "fmt_x n \<noteq> []" by (simp add: fmt_x_FormatInt FormatInt_nonempty)
  then have h: "remoteWriteHead_of (resp\<lparr>RespHeader := [(WriteHeadHeader, fmt_x n)]\<rparr>) = n"
    by (simp add: remoteWriteHead_of_def Header_Get_def ParseInt_fmt_x)
  have t: "commit_trailer delta = ''X-Commit-Delta: '' @ fmt_x delta @ CRLF @ CRLF"
    by (simp add: commit_trailer_def CommitDeltaHeader_def)
  have x: "ParseInt (fmt_x delta) 16 = (delta, None)" by (rule ParseInt_fmt_x)
  have e1: "FormatInt 255 10 = ''255''"
    by (simp add: FormatInt_def format_bits.simps digits_def)
  have e2: "fmt_x 255 = ''ff''" by (simp add: fmt_x_def format_bits.simps digits_def)
  have e3: "fmt_x (- 255) = ''-ff''" by (simp add: fmt_x_def format_bits.simps digits_def)
  have e4: "ParseInt ''255'' 16 = (597, None)"
    by (simp add: ParseInt_def ParseUint_def digit_val_def cutoff64_def)
  from q d h t x e1 e2 e3 e4 show ?thesis by blast
qed

subsection \<open>Sends are only made by send\<close>

lemma sends_append: "sends ch (xs @ ys) = sends ch xs @ sends ch ys"
  by (induction ch xs rule: sends.induct) auto

lemma sends_send: "sends ch (trace (send ch r w)) = sends ch (trace w) @ [r]"
  by (simp add: send_def emit_def sends_append)

lemma sends_raw_SetReadDeadline: "sends ch (trace (raw_SetReadDeadline c d w)) = sends ch (trace w)"
  by (simp add: raw_SetReadDeadline_def emit_def sends_append)

lemma sends_buf_Write: "sends ch (trace (buf_Write c b w)) = sends ch (trace w)"
  by (simp add: buf_Write_def split: option.splits)

lemma sends_buf_Flush: "sends ch (trace (snd (buf_Flush c f w))) = sends ch (trace w)"
  by (simp add: buf_Flush_def emit_def sends_append Let_def split: option.splits)

lemma sends_ReadResponse: "sends ch (trace (snd (ReadResponse c r w))) = sends ch (trace w)"
  by (simp add: ReadResponse_def emit_def sends_append)

lemma sends_putConn: "sends ch (trace (putConn c w)) = sends ch (trace w)"
  by (simp add: putConn_def Let_def sends_raw_SetReadDeadline split: option.splits)

lemma sends_takeConn: "sends ch (trace (snd (takeConn e w))) = sends ch (trace w)"
  by (simp add: takeConn_def emit_def sends_append split: option.splits sum.splits prod.splits)

lemma sends_chunk_Close: "sends ch (trace (chunk_Close c w)) = sends ch (trace w)"
  by (simp add: chunk_Close_def sends_buf_Write)

subsection \<open>A rejected handshake\<close>

lemma start_rejected:
  assumes "takeConn e w = (Inr c, w1)"
    and "fst (NewHTTPRequest e ''REPLICATE'' (''/'' @ Journal op)) = Some req0"
    and "DumpRequest e (handshake_request op req0) = Inr reqBytes"
    and "fst (buf_Flush c (flush_fault e) (buf_Write c reqBytes w1)) = None"
    and "response e = Inr resp"
    and "StatusCode resp \<noteq> StatusContinue"
  shows "\<exists>w'. start e op w = Returned () w' \<and>
           sends (Result op) (trace w') = sends (Result op) (trace w) @
             [\<lparr>Error = Some (ErrorsNew (Body resp)),
               ErrorWriteHead = remoteWriteHead_of resp, Writer = None\<rparr>]"
proof -
  obtain w2 where f1: "buf_Flush c (flush_fault e) (buf_Write c reqBytes w1) = (None, w2)"
    using assms(4) by (cases "buf_Flush c (flush_fault e) (buf_Write c reqBytes w1)") auto
  have s2: "sends (Result op) (trace w2) = sends (Result op) (trace w)"
    using sends_buf_Flush [of "Result op" c "flush_fault e" "buf_Write c reqBytes w1"]
      sends_takeConn [of "Result op" e w] f1 assms(1) by (simp add: sends_buf_Write)
  define w3 where "w3 = emit (Raw c NetRead) (raw_SetReadDeadline c (Some (now e + Minute)) w2)"
  have s3: "sends (Result op) (trace w3) = sends (Result op) (trace w)"
    by (simp add: w3_def emit_def sends_append sends_raw_SetReadDeadline s2)
  obtain ferr w4 where f2:
    "buf_Flush c (flush_fault2 e) (buf_Write c (''0'' @ CRLF @ CRLF) w3) = (ferr, w4)"
    by (cases "buf_Flush c (flush_fault2 e) (buf_Write c (''0'' @ CRLF @ CRLF) w3)") auto
  have s4: "sends (Result op) (trace w4) = sends (Result op) (trace w)"
    using sends_buf_Flush [of "Result op" c "flush_fault2 e" "buf_Write c (''0'' @ CRLF @ CRLF) w3"] f2
    by (simp add: sends_buf_Write s3)
  show ?thesis
    using assms(1,2,3,5,6) f1 f2 s4
    by (simp add: start_def ReadResponse_def w3_def [symmetric] Let_def sends_send sends_putConn)
qed

lemma ParseInt_Cons:
  assumes "ParseUint (if c = CHR ''+'' \<or> c = CHR ''-'' then r else c # r) b = (un, err)"
  shows "ParseInt (c # r) b =
     (if err \<noteq> None \<and> err \<noteq> Some ErrRange then (0, err)
      else if c \<noteq> CHR ''-'' \<and> 2 ^ 63 \<le> un then (2 ^ 63 - 1, Some ErrRange)
      else if c = CHR ''-'' \<and> 2 ^ 63 < un then (- (2 ^ 63), Some ErrRange)
      else (if c = CHR ''-'' then - word_of_nat un else word_of_nat un, None))"
  using assms by (simp add: ParseInt_def Let_def)

lemma ParseInt_syntax_zero:
  assumes a: "snd (ParseInt s b) = Some ErrSyntax"
  shows "fst (ParseInt s b) = 0"
proof (cases s)
  case Nil
  then show ?thesis by (simp add: ParseInt_def)
next
  case (Cons c r)
  obtain un err where u: "ParseUint (if c = CHR ''+'' \<or> c = CHR ''-'' then r else c # r) b = (un, err)"
    by (cases "ParseUint (if c = CHR ''+'' \<or> c = CHR ''-'' then r else c # r) b") auto
  show ?thesis using a unfolding Cons ParseInt_Cons [OF u] by (simp split: if_splits)
qed

lemma ParseInt_range_bound:
  assumes a: "snd (ParseInt s b) = Some ErrRange"
  shows "fst (ParseInt s b) = 2 ^ 63 - 1 \<or> fst (ParseInt s b) = - (2 ^ 63)"
proof (cases s)
  case Nil
  with a show ?thesis by (simp add: ParseInt_def)
next
  case (Cons c r)
  obtain un err where u: "ParseUint (if c = CHR ''+'' \<or> c = CHR ''-'' then r else c # r) b = (un, err)"
    by (cases "ParseUint (if c = CHR ''+'' \<or> c = CHR ''-'' then r else c # r) b") auto
  show ?thesis using a unfolding Cons ParseInt_Cons [OF u] by (simp split: if_splits)
qed

lemma ParseInt_Nil: "ParseInt [] b = (0, Some ErrSyntax)"
  by (simp add: ParseInt_def)

lemma ParseInt_2a: "ParseInt ''2a'' 16 = (42, None)"
  by (simp add: parse_defs)

text \<open>
  C1, as amended. When the handshake response has a status other than continue, the
  operation's channel receives one more value: an error whose message is the response
  body and whose write head is read from the \<^verbatim>\<open>X-Write-Head\<close>
  header in base 16. The header \<^verbatim>\<open>2a\<close> gives 42, and the
  hexadecimal text of any offset gives that offset. An absent (empty) header, or one that
  is no hexadecimal numeral (a syntax error), gives 0. A numeral outside the 64-bit range
  is a parse error too, but then the write head delivered is the bound ParseInt returns
  with its range error, \<open>2 ^ 63 - 1\<close> or \<open>- (2 ^ 63)\<close>. No parse
  error stops the delivery.
\<close>

theorem C1_conflict_offset:
  assumes "takeConn e w = (Inr c, w1)"
    and "fst (NewHTTPRequest e ''REPLICATE'' (''/'' @ Journal op)) = Some req0"
    and "DumpRequest e (handshake_request op req0) = Inr reqBytes"
    and "fst (buf_Flush c (flush_fault e) (buf_Write c reqBytes w1)) = None"
    and "response e = Inr resp"
    and "StatusCode resp \<noteq> StatusContinue"
  shows "(\<exists>w'. start e op w = Returned () w' \<and>
           sends (Result op) (trace w') = sends (Result op) (trace w) @
             [\<lparr>Error = Some (ErrorsNew (Body resp)),
               ErrorWriteHead = remoteWriteHead_of resp, Writer = None\<rparr>])
    \<and> (Header_Get (RespHeader resp) WriteHeadHeader = ''2a'' \<longrightarrow> remoteWriteHead_of resp = 42)
    \<and> (Header_Get (RespHeader resp) WriteHeadHeader = fmt_x n \<longrightarrow> remoteWriteHead_of resp = n)
    \<and> (Header_Get (RespHeader resp) WriteHeadHeader = [] \<longrightarrow> remoteWriteHead_of resp = 0)
    \<and> (snd (ParseInt (Header_Get (RespHeader resp) WriteHeadHeader) 16) = Some ErrSyntax
          \<longrightarrow> remoteWriteHead_of resp = 0)
    \<and> (snd (ParseInt (Header_Get (RespHeader resp) WriteHeadHeader) 16) = Some ErrRange
          \<longrightarrow> remoteWriteHead_of resp = 2 ^ 63 - 1 \<or> remoteWriteHead_of resp = - (2 ^ 63))"
proof -
  let ?s = "Header_Get (RespHeader resp) WriteHeadHeader"
  have a: "?s = ''2a'' \<longrightarrow> remoteWriteHead_of resp = 42"
    by (simp add: remoteWriteHead_of_def ParseInt_2a)
  have "fmt_x n \<noteq> []" by (simp add: fmt_x_FormatInt FormatInt_nonempty)
  then have b: "?s = fmt_x n \<longrightarrow> remoteWriteHead_of resp = n"
    by (simp add: remoteWriteHead_of_def ParseInt_fmt_x)
  have c: "?s = [] \<longrightarrow> remoteWriteHead_of resp = 0"
    by (simp add: remoteWriteHead_of_def)
  have d: "snd (ParseInt ?s 16) = Some ErrSyntax \<longrightarrow> remoteWriteHead_of resp = 0"
    by (simp add: remoteWriteHead_of_def Let_def ParseInt_syntax_zero)
  have r: "snd (ParseInt ?s 16) = Some ErrRange
      \<longrightarrow> remoteWriteHead_of resp = 2 ^ 63 - 1 \<or> remoteWriteHead_of resp = - (2 ^ 63)"
    using ParseInt_range_bound [of ?s 16]
    by (cases "?s = []") (simp_all add: remoteWriteHead_of_def Let_def ParseInt_Nil)
  from start_rejected [OF assms] a b c d r show ?thesis by blast
qed

text \<open>The theorem at a peer that answers 409 with \<^verbatim>\<open>X-Write-Head: 2a\<close>.\<close>

theorem C1_conflict_offset_witness:
  "\<exists>w'. start (conflict_env ''2a'') an_op (NewReplicateClient world0) = Returned () w' \<and>
         sends 7 (trace w') =
           [\<lparr>Error = Some (ErrorsNew ''conflict''), ErrorWriteHead = 42, Writer = None\<rparr>]"
proof -
  let ?e = "conflict_env ''2a''"
  let ?w = "NewReplicateClient world0"
  let ?resp = "\<lparr>StatusCode = 409, RespHeader = [(''X-Write-Head'', ''2a'')], Body = ''conflict'', Close = False\<rparr>"
  obtain c w1 where h1: "takeConn ?e ?w = (Inr c, w1)"
    by (simp add: conflict_env_def prim_defs fixture_defs)
  obtain req0 where h2: "fst (NewHTTPRequest ?e ''REPLICATE'' (''/'' @ Journal an_op)) = Some req0"
    by (simp add: conflict_env_def fixture_defs)
  obtain reqBytes where h3: "DumpRequest ?e (handshake_request an_op req0) = Inr reqBytes"
    by (simp add: conflict_env_def fixture_defs)
  have h4: "fst (buf_Flush c (flush_fault ?e) (buf_Write c reqBytes w1)) = None"
    using h1 by (auto simp: conflict_env_def prim_defs fixture_defs Let_def split: option.splits)
  have h5: "response ?e = Inr ?resp" by (simp add: conflict_env_def fixture_defs)
  have h6: "StatusCode ?resp \<noteq> StatusContinue" by (simp add: const_defs)
  have g: "Header_Get (RespHeader ?resp) WriteHeadHeader = ''2a''"
    by (simp add: Header_Get_def const_defs)
  from C1_conflict_offset [OF h1 h2 h3 h4 h5 h6, of 0] g
  have main: "\<exists>w'. start ?e an_op ?w = Returned () w' \<and>
      sends (Result an_op) (trace w') = sends (Result an_op) (trace ?w) @
        [\<lparr>Error = Some (ErrorsNew (Body ?resp)),
          ErrorWriteHead = remoteWriteHead_of ?resp, Writer = None\<rparr>]"
    and v: "remoteWriteHead_of ?resp = 42"
    by blast+
  have t: "trace ?w = []" by (simp add: NewReplicateClient_def world0_def)
  have r: "Result an_op = 7" by (simp add: an_op_def)
  from main show ?thesis by (simp add: t r v)
qed

text \<open>
  The claim as first stated fails: the header \<^verbatim>\<open>8000000000000000\<close>
  does not parse (a range error), and the error delivered carries the offset
  \<open>2 ^ 63 - 1\<close>, not 0.
\<close>

theorem C1_range_counterexample:
  "snd (ParseInt ''8000000000000000'' 16) = Some ErrRange \<and>
   (\<exists>w'. start (conflict_env ''8000000000000000'') an_op (NewReplicateClient world0) = Returned () w' \<and>
         sends 7 (trace w') =
           [\<lparr>Error = Some (ErrorsNew ''conflict''), ErrorWriteHead = 9223372036854775807, Writer = None\<rparr>])"
  by (simp add: conflict_env_def start_def prim_defs fixture_defs const_defs handshake_request_def
      remoteWriteHead_of_def Header_Get_def parse_defs Let_def)

lemma takeConn_NewHTTPRequest_update [simp]:
  "takeConn (e\<lparr>NewHTTPRequest := f\<rparr>) w = takeConn e w"
  by (simp add: takeConn_def cong: option.case_cong sum.case_cong)

lemma start_nil_request:
  assumes "takeConn e w = (Inr c, w1)"
    and "fst (NewHTTPRequest e ''REPLICATE'' (''/'' @ Journal op)) = None"
  shows "start e op w = Panicked w1"
  using assms by (simp add: start_def)

lemma start_ignores_request_error:
  "start (e\<lparr>NewHTTPRequest := \<lambda>m p. (fst (NewHTTPRequest e m p), x m p)\<rparr>) op w = start e op w"
  by (simp add: start_def cong: option.case_cong sum.case_cong prod.case_cong if_cong)

text \<open>
  C9. \<^verbatim>\<open>start\<close> discards the error of the request builder:
  replacing the error the builder returns by any other leaves
  \<^verbatim>\<open>start\<close> unchanged, so no such error reaches the result
  channel. When the builder fails with a nil request (and a connection was obtained), the
  request is used unguarded: \<^verbatim>\<open>start\<close> panics, and the result
  channel has received nothing.
\<close>

theorem C9_request_error_discarded:
  "start (e\<lparr>NewHTTPRequest := \<lambda>m p. (fst (NewHTTPRequest e m p), x m p)\<rparr>) op w = start e op w
   \<and> (takeConn e w = (Inr c, w1)
        \<and> NewHTTPRequest e ''REPLICATE'' (''/'' @ Journal op) = (None, Some err)
      \<longrightarrow> start e op w = Panicked w1
          \<and> sends (Result op) (trace w1) = sends (Result op) (trace w))"
proof -
  have a: "start (e\<lparr>NewHTTPRequest := \<lambda>m p. (fst (NewHTTPRequest e m p), x m p)\<rparr>) op w = start e op w"
    by (rule start_ignores_request_error)
  have b: "takeConn e w = (Inr c, w1)
        \<and> NewHTTPRequest e ''REPLICATE'' (''/'' @ Journal op) = (None, Some err)
      \<longrightarrow> start e op w = Panicked w1
          \<and> sends (Result op) (trace w1) = sends (Result op) (trace w)"
  proof (intro impI conjI)
    assume h: "takeConn e w = (Inr c, w1)
        \<and> NewHTTPRequest e ''REPLICATE'' (''/'' @ Journal op) = (None, Some err)"
    then show "start e op w = Panicked w1" by (simp add: start_nil_request)
    from h sends_takeConn [of "Result op" e w]
    show "sends (Result op) (trace w1) = sends (Result op) (trace w)" by simp
  qed
  from a b show ?thesis by blast
qed

text \<open>
  The theorem at a second operation that takes the idle connection from the pool while the
  endpoint has become unavailable: the operation's channel receives nothing.
\<close>

theorem C9_request_error_discarded_witness:
  "start unavailable_env another_op committed_world
     = Panicked (committed_world\<lparr>idlePool := Some \<lparr>cap = 6, queue = []\<rparr>\<rparr>)
   \<and> sends 8 (trace (world_of (start unavailable_env another_op committed_world))) = []"
proof -
  let ?w1 = "committed_world\<lparr>idlePool := Some \<lparr>cap = 6, queue = []\<rparr>\<rparr>"
  have h1: "takeConn unavailable_env committed_world = (Inr 0, ?w1)"
    by (simp add: committed_world_eq takeConn_def chan_recv_def)
  have h2: "NewHTTPRequest unavailable_env ''REPLICATE'' (''/'' @ Journal another_op)
      = (None, Some (ExternalError ''no address''))"
    by (simp add: unavailable_env_def nil_request_def)
  have r: "Result another_op = 8" by (simp add: another_op_def)
  have t: "sends 8 (trace committed_world) = []"
    by (simp add: committed_world_eq streaming_world_eq)
  from C9_request_error_discarded [where e = unavailable_env and op = another_op
      and w = committed_world and c = 0 and ?w1.0 = ?w1
      and err = "ExternalError ''no address''"] h1 h2
  have "start unavailable_env another_op committed_world = Panicked ?w1"
    and "sends (Result another_op) (trace ?w1) = sends (Result another_op) (trace committed_world)"
    by blast+
  then show ?thesis by (simp add: world_of_def r t)
qed

subsection \<open>Exactly one result\<close>

lemma start_sends_one:
  assumes "isl (fst (takeConn e w)) \<or> fst (NewHTTPRequest e ''REPLICATE'' (''/'' @ Journal op)) \<noteq> None"
  shows "\<exists>w' r. start e op w = Returned () w' \<and>
           sends (Result op) (trace w') = sends (Result op) (trace w) @ [r] \<and>
           ((Writer r \<noteq> None \<and> Error r = None) \<or> (Writer r = None \<and> Error r \<noteq> None))"
proof (cases "takeConn e w")
  case (Pair r0 w1)
  have s1: "sends (Result op) (trace w1) = sends (Result op) (trace w)"
    using sends_takeConn [of "Result op" e w] Pair by simp
  show ?thesis
  proof (cases r0)
    case (Inl err)
    with Pair s1 show ?thesis by (simp add: start_def sends_send)
  next
    case (Inr c)
    with assms Pair obtain req0 where rq: "fst (NewHTTPRequest e ''REPLICATE'' (''/'' @ Journal op)) = Some req0"
      by auto
    show ?thesis
    proof (cases "DumpRequest e (handshake_request op req0)")
      case (Inl err)
      with Pair Inr rq s1 show ?thesis by (simp add: start_def sends_send)
    next
      case dump: (Inr reqBytes)
      obtain ferr w2 where f1: "buf_Flush c (flush_fault e) (buf_Write c reqBytes w1) = (ferr, w2)"
        by (cases "buf_Flush c (flush_fault e) (buf_Write c reqBytes w1)") auto
      have s2: "sends (Result op) (trace w2) = sends (Result op) (trace w)"
        using sends_buf_Flush [of "Result op" c "flush_fault e" "buf_Write c reqBytes w1"] f1
        by (simp add: sends_buf_Write s1)
      show ?thesis
      proof (cases ferr)
        case (Some err)
        with Pair Inr rq dump f1 s2 show ?thesis by (simp add: start_def sends_send)
      next
        case None
        define w3 where "w3 = emit (Raw c NetRead) (raw_SetReadDeadline c (Some (now e + Minute)) w2)"
        have s3: "sends (Result op) (trace w3) = sends (Result op) (trace w)"
          by (simp add: w3_def emit_def sends_append sends_raw_SetReadDeadline s2)
        show ?thesis
        proof (cases "response e")
          case (Inl err)
          with Pair Inr rq dump f1 None s3 show ?thesis
            by (simp add: start_def ReadResponse_def w3_def [symmetric] sends_send)
        next
          case resp: (Inr resp)
          show ?thesis
          proof (cases "StatusCode resp = StatusContinue")
            case True
            with Pair Inr rq dump f1 None s3 resp show ?thesis
              by (simp add: start_def ReadResponse_def w3_def [symmetric] sends_send
                  sends_raw_SetReadDeadline Let_def)
          next
            case False
            have tk: "takeConn e w = (Inr c, w1)" using Pair Inr by simp
            have ff: "fst (buf_Flush c (flush_fault e) (buf_Write c reqBytes w1)) = None"
              using f1 None by simp
            from start_rejected [OF tk rq dump ff resp False]
            show ?thesis by auto
          qed
        qed
      qed
    qed
  qed
qed

text \<open>
  Every path of \<^verbatim>\<open>start\<close> on which a connection could not be acquired, or on which
  the request builder returned a request, sends exactly one value: a write handle without
  an error, or an error without a write handle.
\<close>

lemma Replicate_sends_one:
  assumes "isl (fst (takeConn e w)) \<or> fst (NewHTTPRequest e ''REPLICATE'' (''/'' @ Journal op)) \<noteq> None"
  shows "\<exists>w' r. Replicate e op w = Returned () w' \<and>
           sends (Result op) (trace w') = sends (Result op) (trace w) @ [r] \<and>
           ((Writer r \<noteq> None \<and> Error r = None) \<or> (Writer r = None \<and> Error r \<noteq> None))"
  using start_sends_one [OF assms] by (simp add: Replicate_def)

text \<open>
  C2. Every operation submitted through \<^verbatim>\<open>Replicate\<close> should see exactly one value
  on its result channel. The code breaks this where the request builder fails: its error
  is discarded, the nil request is dereferenced, and the goroutine panics with nothing
  sent. The error of the very next call, the serializer of the request head, is checked
  and delivered, as is every other error of \<^verbatim>\<open>start\<close>: at the same peer, a
  serializer that fails gives exactly one value on the channel, the error.
\<close>

theorem C2_nil_request_panics:
  "(\<exists>w'. Replicate ((peer_env (reply 100 [] []))\<lparr>NewHTTPRequest := nil_request\<rparr>) an_op
          (NewReplicateClient world0) = Panicked w'
        \<and> sends 7 (trace w') = [])
   \<and> (\<exists>w'. Replicate ((peer_env (reply 100 [] []))
            \<lparr>DumpRequest := (\<lambda>r. Inl (ExternalError ''bad request''))\<rparr>) an_op
          (NewReplicateClient world0) = Returned () w'
        \<and> sends 7 (trace w') =
            [\<lparr>Error = Some (ExternalError ''bad request''), ErrorWriteHead = 0, Writer = None\<rparr>])"
  by (simp add: Replicate_def start_def prim_defs fixture_defs const_defs nil_request_def)

subsection \<open>Connection acquisition\<close>

lemma takeConn_resolve_fails:
  "chan_recv (idlePool w) = None \<Longrightarrow> ResolveURL e = Inl err \<Longrightarrow> takeConn e w = (Inl err, w)"
  by (simp add: takeConn_def)

lemma takeConn_dial_fails:
  "chan_recv (idlePool w) = None \<Longrightarrow> ResolveURL e = Inr host \<Longrightarrow> Dial e host = Some err \<Longrightarrow>
     takeConn e w = (Inl err, emit InvalidateResolution w)"
  by (simp add: takeConn_def)

lemma start_takeConn_fails:
  "takeConn e w = (Inl err, w1) \<Longrightarrow>
     start e op w = Returned ()
       (send (Result op) \<lparr>Error = Some err, ErrorWriteHead = 0, Writer = None\<rparr> w1)"
  by (simp add: start_def)

text \<open>
  C6, as amended. With no idle connection in the pool: when the dial fails,
  \<^verbatim>\<open>start\<close> adds exactly two events, one resolution-invalidation
  signal and then the send of the dial error on the result channel; when the resolution
  of the address itself fails, it adds the send of that error only, and no invalidation
  signal. In both cases nothing else of the world changes: no connection is made and the
  pool is as before.
\<close>

theorem C6_dial_failure_invalidates:
  assumes "chan_recv (idlePool w) = None"
  shows "(ResolveURL e = Inr host \<and> Dial e host = Some err \<longrightarrow>
            start e op w = Returned ()
              (w\<lparr>trace := trace w @ [InvalidateResolution,
                   Send (Result op) \<lparr>Error = Some err, ErrorWriteHead = 0, Writer = None\<rparr>]\<rparr>))
       \<and> (ResolveURL e = Inl err \<longrightarrow>
            start e op w = Returned ()
              (w\<lparr>trace := trace w @
                   [Send (Result op) \<lparr>Error = Some err, ErrorWriteHead = 0, Writer = None\<rparr>]\<rparr>))"
proof (intro conjI impI)
  assume "ResolveURL e = Inr host \<and> Dial e host = Some err"
  then have "takeConn e w = (Inl err, emit InvalidateResolution w)"
    using assms by (simp add: takeConn_dial_fails)
  then show "start e op w = Returned ()
      (w\<lparr>trace := trace w @ [InvalidateResolution,
           Send (Result op) \<lparr>Error = Some err, ErrorWriteHead = 0, Writer = None\<rparr>]\<rparr>)"
    by (simp add: start_takeConn_fails send_def emit_def)
next
  assume "ResolveURL e = Inl err"
  then have "takeConn e w = (Inl err, w)" using assms by (simp add: takeConn_resolve_fails)
  then show "start e op w = Returned ()
      (w\<lparr>trace := trace w @
           [Send (Result op) \<lparr>Error = Some err, ErrorWriteHead = 0, Writer = None\<rparr>]\<rparr>)"
    by (simp add: start_takeConn_fails send_def emit_def)
qed

text \<open>
  The theorem at a peer that refuses the connection.
\<close>

theorem C6_dial_failure_invalidates_witness:
  "start refused_env an_op (NewReplicateClient world0) = Returned ()
     ((NewReplicateClient world0)\<lparr>trace := [InvalidateResolution,
          Send 7 \<lparr>Error = Some (ExternalError ''connection refused''), ErrorWriteHead = 0,
                  Writer = None\<rparr>]\<rparr>)
   \<and> pool_conns (world_of (start refused_env an_op (NewReplicateClient world0))) = []"
proof -
  let ?w = "NewReplicateClient world0"
  have h: "chan_recv (idlePool ?w) = None"
    by (simp add: NewReplicateClient_def world0_def chan_recv_def)
  have r: "ResolveURL refused_env = Inr ''peer:8081''
      \<and> Dial refused_env ''peer:8081'' = Some (ExternalError ''connection refused'')"
    by (simp add: refused_env_def peer_env_def)
  have t: "trace ?w = []" by (simp add: NewReplicateClient_def world0_def)
  have o: "Result an_op = 7" by (simp add: an_op_def)
  from C6_dial_failure_invalidates [OF h, of refused_env "''peer:8081''"
      "ExternalError ''connection refused''" an_op] r
  have "start refused_env an_op ?w = Returned ()
      (?w\<lparr>trace := trace ?w @ [InvalidateResolution,
         Send (Result an_op) \<lparr>Error = Some (ExternalError ''connection refused''),
            ErrorWriteHead = 0, Writer = None\<rparr>]\<rparr>)"
    by blast
  then show ?thesis
    by (simp add: t o world_of_def pool_conns_def NewReplicateClient_def world0_def)
qed

text \<open>
  The claim as first stated fails: when the endpoint's address is unavailable, the error
  is surfaced and no invalidation signal is sent.
\<close>

theorem C6_resolution_counterexample:
  "start unresolved_env an_op (NewReplicateClient world0) = Returned ()
     ((NewReplicateClient world0)\<lparr>trace :=
        [Send 7 \<lparr>Error = Some (ExternalError ''no address''), ErrorWriteHead = 0,
                 Writer = None\<rparr>]\<rparr>)
   \<and> InvalidateResolution \<notin> set (trace (world_of (start unresolved_env an_op (NewReplicateClient world0))))"
  by (simp add: start_def prim_defs fixture_defs unresolved_env_def world_of_def)

subsection \<open>What the primitives leave alone\<close>

lemma idlePool_emit [simp]: "idlePool (emit ev w) = idlePool w"
  by (simp add: emit_def)

lemma idlePool_raw_SetReadDeadline [simp]: "idlePool (raw_SetReadDeadline c d w) = idlePool w"
  by (simp add: raw_SetReadDeadline_def)

lemma idlePool_buf_Write [simp]: "idlePool (buf_Write c b w) = idlePool w"
  by (simp add: buf_Write_def split: option.splits)

lemma idlePool_buf_Flush: "buf_Flush c f w = (r, w') \<Longrightarrow> idlePool w' = idlePool w"
  by (auto simp: buf_Flush_def Let_def split: option.splits if_splits)

lemma idlePool_chunk_Close [simp]: "idlePool (chunk_Close c w) = idlePool w"
  by (simp add: chunk_Close_def)

lemma pool_conns_putConn:
  "pool_conns (putConn c w) = (if pool_has_room w then pool_conns w @ [c] else pool_conns w)"
  by (simp add: putConn_def pool_conns_def pool_has_room_def chan_send_def Let_def
      split: option.splits)

lemma trace_putConn: "trace (putConn c w) = trace w @ [Raw c (SetReadDeadline None)]"
  by (simp add: putConn_def raw_SetReadDeadline_def emit_def Let_def split: option.splits)

lemma pool_conns_cong: "idlePool w' = idlePool w \<Longrightarrow> pool_conns w' = pool_conns w"
  by (simp add: pool_conns_def)

lemma pool_has_room_cong: "idlePool w' = idlePool w \<Longrightarrow> pool_has_room w' = pool_has_room w"
  by (simp add: pool_has_room_def)

subsection \<open>Commit\<close>

lemma Commit_flush_fails:
  assumes "chunker t = Some c" "conn t = Some c"
    and "buf_Flush c (flush_fault e) (buf_Write c (commit_trailer delta) (chunk_Close c w)) = (Some err, w2)"
  shows "Commit e t delta w = Returned (Some err) w2"
  using assms by (simp add: Commit_def)

lemma Commit_read_fails:
  assumes "chunker t = Some c" "conn t = Some c"
    and "buf_Flush c (flush_fault e) (buf_Write c (commit_trailer delta) (chunk_Close c w)) = (None, w2)"
    and "response e = Inl err"
  shows "Commit e t delta w = Returned (Some err)
           (emit (Raw c NetRead) (raw_SetReadDeadline c (Some (now e + Minute)) w2))"
  using assms by (simp add: Commit_def ReadResponse_def)

lemma Commit_response:
  assumes "chunker t = Some c" "conn t = Some c"
    and "buf_Flush c (flush_fault e) (buf_Write c (commit_trailer delta) (chunk_Close c w)) = (None, w2)"
    and "response e = Inr resp"
  shows "Commit e t delta w =
           Returned (if StatusCode resp = StatusNoContent then None else Some (ErrorsNew (Body resp)))
             (if Close resp
              then emit (Raw c NetRead) (raw_SetReadDeadline c (Some (now e + Minute)) w2)
              else putConn c (emit (Raw c NetRead) (raw_SetReadDeadline c (Some (now e + Minute)) w2)))"
  using assms by (simp add: Commit_def ReadResponse_def Let_def)

text \<open>
  C3, as amended. For a handle of an open transaction, \<^verbatim>\<open>Commit\<close>
  has three outcomes. When the flush of the last chunk and the trailer fails, it returns
  the transport's error, no response is read and the pool is as before. When reading the
  final response fails, it returns that error and the pool is as before. When a response
  is read, it returns nil exactly when the status is 204, whatever is left of the body,
  and else an error whose message is the response body; and unless the peer asked to
  close the connection, the connection is released to the pool, with its read deadline
  cleared, where it is queued if the pool has room.
\<close>

theorem C3_commit_outcome:
  assumes "chunker t = Some c" and "conn t = Some c"
    and "buf_Flush c (flush_fault e) (buf_Write c (commit_trailer delta) (chunk_Close c w)) = (ferr, w2)"
  shows "(ferr = Some err \<longrightarrow>
            (\<exists>w'. Commit e t delta w = Returned (Some err) w' \<and> pool_conns w' = pool_conns w))
       \<and> (ferr = None \<and> response e = Inl err \<longrightarrow>
            (\<exists>w'. Commit e t delta w = Returned (Some err) w' \<and> pool_conns w' = pool_conns w))
       \<and> (ferr = None \<and> response e = Inr resp \<longrightarrow>
            (\<exists>w'. Commit e t delta w =
                    Returned (if StatusCode resp = StatusNoContent then None
                              else Some (ErrorsNew (Body resp))) w'
                  \<and> pool_conns w' =
                      (if \<not> Close resp \<and> pool_has_room w then pool_conns w @ [c]
                       else pool_conns w)
                  \<and> (\<not> Close resp \<longrightarrow> read_deadline (conns w' c) = None)))"
proof -
  have p2: "idlePool w2 = idlePool w"
    using idlePool_buf_Flush [OF assms(3)] by simp
  let ?w3 = "emit (Raw c NetRead) (raw_SetReadDeadline c (Some (now e + Minute)) w2)"
  have p3: "idlePool ?w3 = idlePool w" using p2 by simp
  have a: "ferr = Some err \<longrightarrow>
      (\<exists>w'. Commit e t delta w = Returned (Some err) w' \<and> pool_conns w' = pool_conns w)"
    using Commit_flush_fails [OF assms(1,2)] assms(3) pool_conns_cong [OF p2] by auto
  have b: "ferr = None \<and> response e = Inl err \<longrightarrow>
      (\<exists>w'. Commit e t delta w = Returned (Some err) w' \<and> pool_conns w' = pool_conns w)"
    using Commit_read_fails [OF assms(1,2)] assms(3) pool_conns_cong [OF p3] by auto
  have d: "read_deadline (conns (putConn c ?w3) c) = None"
    by (simp add: putConn_def raw_SetReadDeadline_def emit_def Let_def split: option.splits)
  have c: "ferr = None \<and> response e = Inr resp \<longrightarrow>
      (\<exists>w'. Commit e t delta w =
                    Returned (if StatusCode resp = StatusNoContent then None
                              else Some (ErrorsNew (Body resp))) w'
                  \<and> pool_conns w' =
                      (if \<not> Close resp \<and> pool_has_room w then pool_conns w @ [c]
                       else pool_conns w)
                  \<and> (\<not> Close resp \<longrightarrow> read_deadline (conns w' c) = None))"
    using Commit_response [OF assms(1,2)] assms(3) pool_conns_cong [OF p3]
      pool_has_room_cong [OF p3] d
    by (auto simp: pool_conns_putConn)
  from a b c show ?thesis by blast
qed

text \<open>
  The theorem at a peer that accepts the commit with 204 and a residual body, and at a
  peer that rejects it with the body \<^verbatim>\<open>quota exceeded\<close>.
\<close>

theorem C3_commit_outcome_witness:
  "(\<exists>w'. Commit (peer_env (reply 204 [] ''left over'')) a_handle 5 streaming_world = Returned None w'
         \<and> pool_conns w' = [0] \<and> read_deadline (conns w' 0) = None)
   \<and> (\<exists>w'. Commit (peer_env (reply 403 [] ''quota exceeded'')) a_handle 5 streaming_world
           = Returned (Some (ErrorsNew ''quota exceeded'')) w'
         \<and> pool_conns w' = [0])"
proof -
  have h1: "chunker a_handle = Some 0" and h2: "conn a_handle = Some 0"
    by (simp_all add: a_handle_def)
  have room: "pool_has_room streaming_world" and pc: "pool_conns streaming_world = []"
    by (simp_all add: streaming_world_eq pool_has_room_def pool_conns_def)
  have ok: "\<And>r. \<exists>w2. buf_Flush 0 (flush_fault (peer_env r))
       (buf_Write 0 (commit_trailer 5) (chunk_Close 0 streaming_world)) = (None, w2)"
    by (simp add: streaming_world_eq peer_env_def chunk_Close_def buf_Write_def buf_Flush_def
        fresh_conn_def Let_def)
  let ?r1 = "\<lparr>StatusCode = 204, RespHeader = [], Body = ''left over'', Close = False\<rparr>"
  let ?r2 = "\<lparr>StatusCode = 403, RespHeader = [], Body = ''quota exceeded'', Close = False\<rparr>"
  obtain w2 where f1: "buf_Flush 0 (flush_fault (peer_env (reply 204 [] ''left over'')))
       (buf_Write 0 (commit_trailer 5) (chunk_Close 0 streaming_world)) = (None, w2)"
    using ok by blast
  have e1: "response (peer_env (reply 204 [] ''left over'')) = Inr ?r1"
    by (simp add: peer_env_def reply_def)
  from C3_commit_outcome [OF h1 h2 f1, where resp = ?r1] e1 room pc
  have a: "\<exists>w'. Commit (peer_env (reply 204 [] ''left over'')) a_handle 5 streaming_world = Returned None w'
         \<and> pool_conns w' = [0] \<and> read_deadline (conns w' 0) = None"
    by (simp add: StatusNoContent_def)
  obtain w2' where f2: "buf_Flush 0 (flush_fault (peer_env (reply 403 [] ''quota exceeded'')))
       (buf_Write 0 (commit_trailer 5) (chunk_Close 0 streaming_world)) = (None, w2')"
    using ok by blast
  have e2: "response (peer_env (reply 403 [] ''quota exceeded'')) = Inr ?r2"
    by (simp add: peer_env_def reply_def)
  from C3_commit_outcome [OF h1 h2 f2, where resp = ?r2] e2 room pc
  have b: "\<exists>w'. Commit (peer_env (reply 403 [] ''quota exceeded'')) a_handle 5 streaming_world
           = Returned (Some (ErrorsNew ''quota exceeded'')) w'
         \<and> pool_conns w' = [0]"
    by (auto simp: StatusNoContent_def)
  from a b show ?thesis by blast
qed

text \<open>
  The claim as first stated fails: when the flush fails, no final response is read and
  the peer has asked for nothing, yet the connection is not returned to the pool.
\<close>

theorem C3_flush_failure_counterexample:
  "\<exists>w'. Commit broken_pipe_env a_handle 5 streaming_world
          = Returned (Some (ExternalError ''broken pipe'')) w'
        \<and> trace w' = trace streaming_world @
            [Raw 0 (NetWrite (''0'' @ CRLF @ ''X-Commit-Delta: 5'' @ CRLF @ CRLF))]
        \<and> pool_conns w' = []"
  by (simp add: Commit_def a_handle_def broken_pipe_env_def streaming_world_eq commit_trailer_5
      chunk_Close_def buf_Write_def buf_Flush_def emit_def fresh_conn_def peer_env_def Let_def
      pool_conns_def)

subsection \<open>The bound of the pool\<close>

lemma pool_ok_NewReplicateClient: "pool_ok w \<Longrightarrow> pool_ok (NewReplicateClient w)"
  by (simp add: pool_ok_def NewReplicateClient_def split: option.splits)

lemma pool_ok_putConn: "pool_ok w \<Longrightarrow> pool_ok (putConn c w)"
  by (auto simp: pool_ok_def putConn_def chan_send_def Let_def split: option.splits if_splits)

lemma pool_ok_release_all: "pool_ok w \<Longrightarrow> pool_ok (release_all cs w)"
  unfolding release_all_def
  by (induction cs arbitrary: w) (simp_all add: pool_ok_putConn)

lemma pool_ok_length: "pool_ok w \<Longrightarrow> length (pool_conns w) \<le> 6"
  by (auto simp: pool_ok_def pool_conns_def ReplicateClientIdlePoolSize_def split: option.splits)

lemma full_pool_no_room: "pool_ok w \<Longrightarrow> length (pool_conns w) = 6 \<Longrightarrow> \<not> pool_has_room w"
  by (auto simp: pool_ok_def pool_conns_def pool_has_room_def ReplicateClientIdlePoolSize_def
      split: option.splits)

lemma putConn_no_room: "\<not> pool_has_room w \<Longrightarrow> putConn c w = raw_SetReadDeadline c None w"
  by (auto simp: putConn_def pool_has_room_def chan_send_def Let_def split: option.splits)

text \<open>
  C4, as amended. From a world whose pool is within its capacity (or not made yet), after
  any sequence of releases the pool of the client holds at most 6 connections, the value
  of \<^verbatim>\<open>ReplicateClientIdlePoolSize\<close>. A release to a full pool is
  the reset of the read deadline and nothing else: the pool is as before (nothing is
  queued), no error is raised, and the only call made on the excess connection's
  transport is \<^verbatim>\<open>SetReadDeadline\<close>; the client does not close it.
\<close>

theorem C4_pool_bound:
  assumes "pool_ok w0"
  shows "length (pool_conns (release_all cs (NewReplicateClient w0))) \<le> 6
       \<and> ReplicateClientIdlePoolSize = 6
       \<and> (pool_ok w \<and> length (pool_conns w) = 6 \<longrightarrow>
            putConn c w = raw_SetReadDeadline c None w
          \<and> pool_conns (putConn c w) = pool_conns w
          \<and> trace (putConn c w) = trace w @ [Raw c (SetReadDeadline None)])"
proof -
  have "pool_ok (release_all cs (NewReplicateClient w0))"
    using assms by (simp add: pool_ok_NewReplicateClient pool_ok_release_all)
  then have a: "length (pool_conns (release_all cs (NewReplicateClient w0))) \<le> 6"
    by (rule pool_ok_length)
  have b: "pool_ok w \<and> length (pool_conns w) = 6 \<longrightarrow>
            putConn c w = raw_SetReadDeadline c None w
          \<and> pool_conns (putConn c w) = pool_conns w
          \<and> trace (putConn c w) = trace w @ [Raw c (SetReadDeadline None)]"
  proof (intro impI)
    assume h: "pool_ok w \<and> length (pool_conns w) = 6"
    then have nr: "\<not> pool_has_room w" by (simp add: full_pool_no_room)
    have e1: "putConn c w = raw_SetReadDeadline c None w" using nr by (rule putConn_no_room)
    have e2: "pool_conns (putConn c w) = pool_conns w" using nr by (simp add: pool_conns_putConn)
    have e3: "trace (putConn c w) = trace w @ [Raw c (SetReadDeadline None)]"
      by (rule trace_putConn)
    from e1 e2 e3 show "putConn c w = raw_SetReadDeadline c None w
          \<and> pool_conns (putConn c w) = pool_conns w
          \<and> trace (putConn c w) = trace w @ [Raw c (SetReadDeadline None)]" by blast
  qed
  have c: "ReplicateClientIdlePoolSize = 6" by (simp add: ReplicateClientIdlePoolSize_def)
  from a b c show ?thesis by blast
qed

text \<open>
  The theorem at eight releases to a new pool: the first six are queued.
\<close>

theorem C4_pool_bound_witness:
  "length (pool_conns (release_all eight_conns (NewReplicateClient world0))) \<le> 6
   \<and> pool_conns (release_all eight_conns (NewReplicateClient world0))
       = [0, 1, 2, 3, 4, 5]"
proof -
  have h: "pool_ok world0" by (simp add: pool_ok_def world0_def)
  from C4_pool_bound [OF h, of eight_conns]
  have "length (pool_conns (release_all eight_conns (NewReplicateClient world0))) \<le> 6"
    by blast
  then show ?thesis by (simp add: release_8 pool_conns_def)
qed

text \<open>
  The claim as first stated fails: the two excess connections are dropped, but no
  \<^verbatim>\<open>Close\<close> is called on their transports; the events are the
  eight deadline resets only.
\<close>

theorem C4_no_close_counterexample:
  "pool_conns (release_all eight_conns (NewReplicateClient world0)) = [0, 1, 2, 3, 4, 5]
   \<and> trace (release_all eight_conns (NewReplicateClient world0))
       = [Raw 0 (SetReadDeadline None), Raw 1 (SetReadDeadline None),
          Raw 2 (SetReadDeadline None), Raw 3 (SetReadDeadline None),
          Raw 4 (SetReadDeadline None), Raw 5 (SetReadDeadline None),
          Raw 6 (SetReadDeadline None), Raw 7 (SetReadDeadline None)]
   \<and> Raw 6 NetClose \<notin> set (trace (release_all eight_conns (NewReplicateClient world0)))
   \<and> Raw 7 NetClose \<notin> set (trace (release_all eight_conns (NewReplicateClient world0)))"
  by (simp add: release_8 pool_conns_def)

subsection \<open>The write handle checks nothing\<close>

lemma Write_returns:
  assumes "chunker t = Some k"
  shows "\<exists>r w'. Write t p w = Returned r w' \<and>
           (r = Inr (length p) \<or> (\<exists>err. werr (conns w k) = Some err \<and> r = Inl err))"
  using assms by (auto simp: Write_def chunk_Write_def split: option.splits)

lemma werr_chunk_Close [simp]: "werr (conns (chunk_Close k w) c) = werr (conns w c)"
  by (simp add: chunk_Close_def buf_Write_def split: option.splits)

lemma werr_buf_Write [simp]: "werr (conns (buf_Write k b w) c) = werr (conns w c)"
  by (simp add: buf_Write_def split: option.splits)

lemma buf_Flush_error:
  "buf_Flush c f w = (Some err, w') \<Longrightarrow> werr (conns w c) = Some err \<or> f = Some err"
  by (auto simp: buf_Flush_def Let_def split: option.splits if_splits)

lemma Commit_returns:
  assumes "chunker t = Some c" "conn t = Some c"
  shows "\<exists>r w'. Commit e t delta w = Returned r w' \<and>
           ((\<exists>resp. response e = Inr resp \<and>
               r = (if StatusCode resp = StatusNoContent then None else Some (ErrorsNew (Body resp))))
            \<or> (\<exists>err. response e = Inl err \<and> r = Some err)
            \<or> (\<exists>err. r = Some err \<and> (werr (conns w c) = Some err \<or> flush_fault e = Some err)))"
proof -
  obtain ferr w2 where f:
    "buf_Flush c (flush_fault e) (buf_Write c (commit_trailer delta) (chunk_Close c w)) = (ferr, w2)"
    by (cases "buf_Flush c (flush_fault e) (buf_Write c (commit_trailer delta) (chunk_Close c w))") auto
  show ?thesis
  proof (cases ferr)
    case (Some err)
    from buf_Flush_error [OF f [unfolded Some]]
    have "werr (conns w c) = Some err \<or> flush_fault e = Some err" by simp
    with Commit_flush_fails [OF assms] f Some show ?thesis by auto
  next
    case None
    show ?thesis
    proof (cases "response e")
      case (Inl err)
      with Commit_read_fails [OF assms] f None show ?thesis by auto
    next
      case (Inr resp)
      with Commit_response [OF assms] f None show ?thesis by auto
    qed
  qed
qed

text \<open>
  C10. The write handle validates no state. On a transaction whose chunk framer is unset,
  \<^verbatim>\<open>Write\<close> and \<^verbatim>\<open>Commit\<close> panic (a nil
  dereference), and so does \<^verbatim>\<open>Commit\<close> on one whose connection is
  unset. On a transaction whose fields are set, in any world whatever (before or after a
  commit), \<^verbatim>\<open>Write\<close> returns, and an error it returns is the
  transport error stuck in the connection's writer; \<^verbatim>\<open>Commit\<close>
  returns, and an error it returns is the transport's (at the flush or at the read) or
  carries the peer's response body. No error of another kind exists to report misuse.
\<close>

theorem C10_no_state_validation:
  "(chunker t = None \<longrightarrow> Write t p w = Panicked w \<and> Commit e t delta w = Panicked w)
   \<and> (chunker t = Some k \<and> conn t = None \<longrightarrow> Commit e t delta w = Panicked (chunk_Close k w))
   \<and> (chunker t = Some k \<longrightarrow>
        (\<exists>r w'. Write t p w = Returned r w' \<and>
           (r = Inr (length p) \<or> (\<exists>err. werr (conns w k) = Some err \<and> r = Inl err))))
   \<and> (chunker t = Some c \<and> conn t = Some c \<longrightarrow>
        (\<exists>r w'. Commit e t delta w = Returned r w' \<and>
           ((\<exists>resp. response e = Inr resp \<and>
               r = (if StatusCode resp = StatusNoContent then None else Some (ErrorsNew (Body resp))))
            \<or> (\<exists>err. response e = Inl err \<and> r = Some err)
            \<or> (\<exists>err. r = Some err \<and> (werr (conns w c) = Some err \<or> flush_fault e = Some err)))))"
proof -
  have a: "chunker t = None \<longrightarrow> Write t p w = Panicked w \<and> Commit e t delta w = Panicked w"
    by (simp add: Write_def Commit_def)
  have b: "chunker t = Some k \<and> conn t = None \<longrightarrow> Commit e t delta w = Panicked (chunk_Close k w)"
    by (simp add: Commit_def)
  have c: "chunker t = Some k \<longrightarrow>
        (\<exists>r w'. Write t p w = Returned r w' \<and>
           (r = Inr (length p) \<or> (\<exists>err. werr (conns w k) = Some err \<and> r = Inl err)))"
    using Write_returns by blast
  have d: "chunker t = Some c \<and> conn t = Some c \<longrightarrow>
        (\<exists>r w'. Commit e t delta w = Returned r w' \<and>
           ((\<exists>resp. response e = Inr resp \<and>
               r = (if StatusCode resp = StatusNoContent then None else Some (ErrorsNew (Body resp))))
            \<or> (\<exists>err. response e = Inl err \<and> r = Some err)
            \<or> (\<exists>err. r = Some err \<and> (werr (conns w c) = Some err \<or> flush_fault e = Some err))))"
    using Commit_returns by blast
  from a b c d show ?thesis by blast
qed

text \<open>
  The theorem at the handle with zero fields, and misuse of a committed handle: a write
  after the commit is accepted into the buffer of the connection that is already back in
  the pool, and a second commit puts that connection into the pool a second time.
\<close>

theorem C10_no_state_validation_witness:
  "Write nil_handle ''hi'' world0 = Panicked world0
   \<and> Commit (peer_env (reply 204 [] [])) nil_handle 5 world0 = Panicked world0
   \<and> pool_conns committed_world = [0]
   \<and> (\<exists>w'. Write a_handle ''hi'' committed_world = Returned (Inr 2) w'
         \<and> pool_conns w' = [0] \<and> wbuf (conns w' 0) = ''2'' @ CRLF @ ''hi'' @ CRLF)
   \<and> (\<exists>w'. Commit (peer_env (reply 204 [] [])) a_handle 5 committed_world = Returned None w'
         \<and> pool_conns w' = [0, 0])"
proof -
  have n: "chunker nil_handle = None" by (simp add: nil_handle_def)
  from C10_no_state_validation [where t = nil_handle and p = "''hi''" and w = world0
      and e = "peer_env (reply 204 [] [])" and delta = 5] n
  have a: "Write nil_handle ''hi'' world0 = Panicked world0
      \<and> Commit (peer_env (reply 204 [] [])) nil_handle 5 world0 = Panicked world0"
    by blast
  have b: "pool_conns committed_world = [0]" by (simp add: committed_world_eq pool_conns_def)
  have c: "\<exists>w'. Write a_handle ''hi'' committed_world = Returned (Inr 2) w'
         \<and> pool_conns w' = [0] \<and> wbuf (conns w' 0) = ''2'' @ CRLF @ ''hi'' @ CRLF"
    by (simp add: Write_def chunk_Write_def a_handle_def committed_world_eq buf_Write_def
        fresh_conn_def pool_conns_def format_bits.simps digits_def)
  have d: "\<exists>w'. Commit (peer_env (reply 204 [] [])) a_handle 5 committed_world = Returned None w'
         \<and> pool_conns w' = [0, 0]"
    by (simp add: Commit_def a_handle_def committed_world_eq commit_trailer_5 chunk_Close_def
        prim_defs fixture_defs const_defs Let_def pool_conns_def)
  from a b c d show ?thesis by blast
qed

subsection \<open>The paths of start\<close>

lemma start_cases [case_names take_fail nil_request dump_fail flush_fail read_fail rejected continue]:
  obtains
    (take_fail) err w1 where
      "takeConn e w = (Inl err, w1)"
      "start e op w = Returned ()
         (send (Result op) \<lparr>Error = Some err, ErrorWriteHead = 0, Writer = None\<rparr> w1)"
  | (nil_request) c w1 where
      "takeConn e w = (Inr c, w1)"
      "fst (NewHTTPRequest e ''REPLICATE'' (''/'' @ Journal op)) = None"
      "start e op w = Panicked w1"
  | (dump_fail) c w1 req0 err where
      "takeConn e w = (Inr c, w1)"
      "fst (NewHTTPRequest e ''REPLICATE'' (''/'' @ Journal op)) = Some req0"
      "DumpRequest e (handshake_request op req0) = Inl err"
      "start e op w = Returned ()
         (send (Result op) \<lparr>Error = Some err, ErrorWriteHead = 0, Writer = None\<rparr> w1)"
  | (flush_fail) c w1 req0 reqBytes err w2 where
      "takeConn e w = (Inr c, w1)"
      "fst (NewHTTPRequest e ''REPLICATE'' (''/'' @ Journal op)) = Some req0"
      "DumpRequest e (handshake_request op req0) = Inr reqBytes"
      "buf_Flush c (flush_fault e) (buf_Write c reqBytes w1) = (Some err, w2)"
      "start e op w = Returned ()
         (send (Result op) \<lparr>Error = Some err, ErrorWriteHead = 0, Writer = None\<rparr> w2)"
  | (read_fail) c w1 req0 reqBytes w2 err where
      "takeConn e w = (Inr c, w1)"
      "fst (NewHTTPRequest e ''REPLICATE'' (''/'' @ Journal op)) = Some req0"
      "DumpRequest e (handshake_request op req0) = Inr reqBytes"
      "buf_Flush c (flush_fault e) (buf_Write c reqBytes w1) = (None, w2)"
      "response e = Inl err"
      "start e op w = Returned ()
         (send (Result op) \<lparr>Error = Some err, ErrorWriteHead = 0, Writer = None\<rparr>
            (emit (Raw c NetRead) (raw_SetReadDeadline c (Some (now e + Minute)) w2)))"
  | (rejected) c w1 req0 reqBytes w2 resp ferr w4 where
      "takeConn e w = (Inr c, w1)"
      "fst (NewHTTPRequest e ''REPLICATE'' (''/'' @ Journal op)) = Some req0"
      "DumpRequest e (handshake_request op req0) = Inr reqBytes"
      "buf_Flush c (flush_fault e) (buf_Write c reqBytes w1) = (None, w2)"
      "response e = Inr resp" "StatusCode resp \<noteq> StatusContinue"
      "buf_Flush c (flush_fault2 e) (buf_Write c (''0'' @ CRLF @ CRLF)
         (emit (Raw c NetRead) (raw_SetReadDeadline c (Some (now e + Minute)) w2))) = (ferr, w4)"
      "start e op w = Returned ()
         (send (Result op)
            \<lparr>Error = Some (ErrorsNew (Body resp)), ErrorWriteHead = remoteWriteHead_of resp,
             Writer = None\<rparr>
            (if \<not> Close resp \<and> ferr = None then putConn c w4 else w4))"
  | (continue) c w1 req0 reqBytes w2 resp where
      "takeConn e w = (Inr c, w1)"
      "fst (NewHTTPRequest e ''REPLICATE'' (''/'' @ Journal op)) = Some req0"
      "DumpRequest e (handshake_request op req0) = Inr reqBytes"
      "buf_Flush c (flush_fault e) (buf_Write c reqBytes w1) = (None, w2)"
      "response e = Inr resp" "StatusCode resp = StatusContinue"
      "start e op w = Returned ()
         (send (Result op)
            \<lparr>Error = None, ErrorWriteHead = 0,
             Writer = Some \<lparr>chunker = Some c, conn = Some c,
                            request = Some (handshake_request op req0)\<rparr>\<rparr>
            (raw_SetReadDeadline c None
               (emit (Raw c NetRead) (raw_SetReadDeadline c (Some (now e + Minute)) w2))))"
proof (cases "takeConn e w")
  case (Pair r0 w1)
  show ?thesis
  proof (cases r0)
    case (Inl err)
    with Pair show ?thesis by (intro take_fail [of err w1]) (simp_all add: start_def)
  next
    case (Inr c)
    show ?thesis
    proof (cases "fst (NewHTTPRequest e ''REPLICATE'' (''/'' @ Journal op))")
      case None
      with Pair Inr show ?thesis by (intro nil_request [of c w1]) (simp_all add: start_def)
    next
      case (Some req0)
      show ?thesis
      proof (cases "DumpRequest e (handshake_request op req0)")
        case (Inl err)
        with Pair Inr Some show ?thesis
          by (intro dump_fail [of c w1 req0 err]) (simp_all add: start_def)
      next
        case dump: (Inr reqBytes)
        obtain ferr w2 where f1: "buf_Flush c (flush_fault e) (buf_Write c reqBytes w1) = (ferr, w2)"
          by (cases "buf_Flush c (flush_fault e) (buf_Write c reqBytes w1)") auto
        show ?thesis
        proof (cases ferr)
          case (Some err)
          with Pair Inr \<open>fst (NewHTTPRequest e ''REPLICATE'' (''/'' @ Journal op)) = Some req0\<close> dump f1
          show ?thesis
            by (intro flush_fail [of c w1 req0 reqBytes err w2]) (simp_all add: start_def)
        next
          case None
          note rq = \<open>fst (NewHTTPRequest e ''REPLICATE'' (''/'' @ Journal op)) = Some req0\<close>
          show ?thesis
          proof (cases "response e")
            case (Inl err)
            with Pair Inr rq dump f1 None show ?thesis
              by (intro read_fail [of c w1 req0 reqBytes w2 err])
                 (simp_all add: start_def ReadResponse_def)
          next
            case resp: (Inr resp)
            show ?thesis
            proof (cases "StatusCode resp = StatusContinue")
              case True
              with Pair Inr rq dump f1 None resp show ?thesis
                by (intro continue [of c w1 req0 reqBytes w2 resp])
                   (simp_all add: start_def ReadResponse_def Let_def)
            next
              case False
              obtain ferr2 w4 where f2:
                "buf_Flush c (flush_fault2 e) (buf_Write c (''0'' @ CRLF @ CRLF)
                   (emit (Raw c NetRead) (raw_SetReadDeadline c (Some (now e + Minute)) w2)))
                 = (ferr2, w4)"
                by (cases "buf_Flush c (flush_fault2 e) (buf_Write c (''0'' @ CRLF @ CRLF)
                   (emit (Raw c NetRead) (raw_SetReadDeadline c (Some (now e + Minute)) w2)))") auto
              with Pair Inr rq dump f1 None resp False show ?thesis
                by (intro rejected [of c w1 req0 reqBytes w2 resp ferr2 w4])
                   (simp_all add: start_def ReadResponse_def Let_def)
            qed
          qed
        qed
      qed
    qed
  qed
qed

lemma sends_buf_Flush_eq: "buf_Flush c f w = (r, w') \<Longrightarrow> sends ch (trace w') = sends ch (trace w)"
  using sends_buf_Flush [of ch c f w] by simp

lemma sends_takeConn_eq: "takeConn e w = (r, w1) \<Longrightarrow> sends ch (trace w1) = sends ch (trace w)"
  using sends_takeConn [of ch e w] by simp

lemma sends_emit_Raw [simp]: "sends ch (trace (emit (Raw c k) w)) = sends ch (trace w)"
  by (simp add: emit_def sends_append)

subsection \<open>The order of the operations on the wire\<close>

lemma start_delivers_writer:
  assumes st: "start e op w = Returned () w'"
    and sn: "sends (Result op) (trace w') = sends (Result op) (trace w) @ [r]"
    and wr: "Writer r = Some t"
  shows "\<exists>c resp pre. response e = Inr resp \<and> StatusCode resp = StatusContinue
           \<and> chunker t = Some c \<and> conn t = Some c
           \<and> trace w' = pre @ [Raw c (SetReadDeadline (Some (now e + Minute))), Raw c NetRead,
                               Raw c (SetReadDeadline None), Send (Result op) r]"
proof (cases e w op rule: start_cases)
  case (take_fail err w1)
  with st sn wr sends_takeConn_eq [OF take_fail(1), of "Result op"] show ?thesis
    by (auto simp: sends_send)
next
  case (nil_request c w1)
  with st show ?thesis by simp
next
  case (dump_fail c w1 req0 err)
  with st sn wr sends_takeConn_eq [OF dump_fail(1), of "Result op"] show ?thesis
    by (auto simp: sends_send)
next
  case (flush_fail c w1 req0 reqBytes err w2)
  with st sn wr sends_takeConn_eq [OF flush_fail(1), of "Result op"]
    sends_buf_Flush_eq [OF flush_fail(4), of "Result op"]
  show ?thesis by (auto simp: sends_send sends_buf_Write)
next
  case (read_fail c w1 req0 reqBytes w2 err)
  with st sn wr sends_takeConn_eq [OF read_fail(1), of "Result op"]
    sends_buf_Flush_eq [OF read_fail(4), of "Result op"]
  show ?thesis by (auto simp: sends_send sends_buf_Write sends_raw_SetReadDeadline)
next
  case (rejected c w1 req0 reqBytes w2 resp ferr w4)
  with st sn wr sends_takeConn_eq [OF rejected(1), of "Result op"]
    sends_buf_Flush_eq [OF rejected(4), of "Result op"]
    sends_buf_Flush_eq [OF rejected(7), of "Result op"]
  show ?thesis
    by (auto simp: sends_send sends_buf_Write sends_raw_SetReadDeadline sends_putConn
        split: if_splits)
next
  case (continue c w1 req0 reqBytes w2 resp)
  let ?t = "\<lparr>chunker = Some c, conn = Some c, request = Some (handshake_request op req0)\<rparr>"
  let ?r = "\<lparr>Error = None, ErrorWriteHead = 0, Writer = Some ?t\<rparr>"
  have s2: "sends (Result op) (trace w2) = sends (Result op) (trace w)"
    using sends_takeConn_eq [OF continue(1), of "Result op"]
      sends_buf_Flush_eq [OF continue(4), of "Result op"]
    by (simp add: sends_buf_Write)
  from st continue(7) have w': "w' = send (Result op) ?r
      (raw_SetReadDeadline c None
         (emit (Raw c NetRead) (raw_SetReadDeadline c (Some (now e + Minute)) w2)))"
    by simp
  then have "sends (Result op) (trace w') = sends (Result op) (trace w) @ [?r]"
    by (simp add: sends_send sends_raw_SetReadDeadline s2)
  with sn have r: "r = ?r" by simp
  with wr have t: "t = ?t" by simp
  have tr: "trace w' = trace w2 @ [Raw c (SetReadDeadline (Some (now e + Minute))), Raw c NetRead,
                               Raw c (SetReadDeadline None), Send (Result op) r]"
    by (simp add: w' r send_def emit_def raw_SetReadDeadline_def)
  from continue(5,6) t tr show ?thesis by auto
qed

lemma Write_chunk:
  assumes "chunker t = Some c" "werr (conns w c) = None" "p \<noteq> []"
  shows "\<exists>w'. Write t p w = Returned (Inr (length p)) w'
           \<and> wbuf (conns w' c) = wbuf (conns w c) @ format_bits 16 (length p) @ CRLF @ p @ CRLF
           \<and> trace w' = trace w"
  using assms by (simp add: Write_def chunk_Write_def buf_Write_def)

lemma chunk_Close_wbuf:
  "werr (conns w c) = None \<Longrightarrow> wbuf (conns (chunk_Close c w) c) = wbuf (conns w c) @ ''0'' @ CRLF"
  by (simp add: chunk_Close_def buf_Write_def)

lemma Commit_wire:
  assumes "chunker t = Some c" "conn t = Some c" "werr (conns w c) = None"
  shows "\<exists>r w' rest. Commit e t delta w = Returned r w'
           \<and> trace w' = trace w @
                Raw c (NetWrite (wbuf (conns w c) @ ''0'' @ CRLF @ commit_trailer delta)) # rest"
proof -
  let ?w1 = "buf_Write c (commit_trailer delta) (chunk_Close c w)"
  have b: "wbuf (conns ?w1 c) = wbuf (conns w c) @ ''0'' @ CRLF @ commit_trailer delta"
    and e: "werr (conns ?w1 c) = None" and tr: "trace ?w1 = trace w"
    using assms(3) by (simp_all add: chunk_Close_def buf_Write_def)
  have ne: "wbuf (conns ?w1 c) \<noteq> []" by (simp add: b)
  obtain ferr w2 where f: "buf_Flush c (flush_fault e) ?w1 = (ferr, w2)"
    by (cases "buf_Flush c (flush_fault e) ?w1") auto
  have t2: "trace w2 = trace w @ [Raw c (NetWrite (wbuf (conns w c) @ ''0'' @ CRLF @ commit_trailer delta))]"
    using f e ne b tr by (auto simp: buf_Flush_def emit_def Let_def split: option.splits)
  show ?thesis
  proof (cases ferr)
    case (Some err)
    with Commit_flush_fails [OF assms(1,2)] f t2 show ?thesis by auto
  next
    case None
    show ?thesis
    proof (cases "response e")
      case (Inl err)
      with Commit_read_fails [OF assms(1,2)] f None t2 show ?thesis
        by (auto simp: emit_def raw_SetReadDeadline_def)
    next
      case (Inr resp)
      with Commit_response [OF assms(1,2)] f None t2 show ?thesis
        by (auto simp: emit_def raw_SetReadDeadline_def trace_putConn)
    qed
  qed
qed

text \<open>
  C5. Within one transaction the operations on the wire are ordered. When
  \<^verbatim>\<open>start\<close> delivers a write handle, the response read was the
  continue response and the last events are, in this order, the read deadline being set,
  the read of the response, the deadline being cleared, and the send of the handle: the
  handle, through which alone payload is written, exists only after the response was
  read. \<^verbatim>\<open>Write\<close> appends one chunk to the connection's buffer and
  touches nothing on the transport. In \<^verbatim>\<open>Commit\<close>, closing the
  chunk framer appends the terminal empty chunk, and the first thing
  \<^verbatim>\<open>Commit\<close> puts on the transport is one write of the buffered
  chunks, then the terminal chunk, then the trailer.
\<close>

theorem C5_sequential_framing:
  "(start e op w = Returned () w'
      \<and> sends (Result op) (trace w') = sends (Result op) (trace w) @ [r] \<and> Writer r = Some t
    \<longrightarrow> (\<exists>c resp pre. response e = Inr resp \<and> StatusCode resp = StatusContinue
           \<and> chunker t = Some c \<and> conn t = Some c
           \<and> trace w' = pre @ [Raw c (SetReadDeadline (Some (now e + Minute))), Raw c NetRead,
                               Raw c (SetReadDeadline None), Send (Result op) r]))
   \<and> (chunker t = Some c \<and> werr (conns w c) = None \<and> p \<noteq> []
    \<longrightarrow> (\<exists>w'. Write t p w = Returned (Inr (length p)) w'
           \<and> wbuf (conns w' c) = wbuf (conns w c) @ format_bits 16 (length p) @ CRLF @ p @ CRLF
           \<and> trace w' = trace w))
   \<and> (chunker t = Some c \<and> conn t = Some c \<and> werr (conns w c) = None
    \<longrightarrow> wbuf (conns (chunk_Close c w) c) = wbuf (conns w c) @ ''0'' @ CRLF
      \<and> (\<exists>r w' rest. Commit e t delta w = Returned r w'
           \<and> trace w' = trace w @
                Raw c (NetWrite (wbuf (conns w c) @ ''0'' @ CRLF @ commit_trailer delta)) # rest))"
proof -
  have a: "start e op w = Returned () w'
      \<and> sends (Result op) (trace w') = sends (Result op) (trace w) @ [r] \<and> Writer r = Some t
    \<longrightarrow> (\<exists>c resp pre. response e = Inr resp \<and> StatusCode resp = StatusContinue
           \<and> chunker t = Some c \<and> conn t = Some c
           \<and> trace w' = pre @ [Raw c (SetReadDeadline (Some (now e + Minute))), Raw c NetRead,
                               Raw c (SetReadDeadline None), Send (Result op) r])"
    using start_delivers_writer by blast
  have b: "chunker t = Some c \<and> werr (conns w c) = None \<and> p \<noteq> []
    \<longrightarrow> (\<exists>w'. Write t p w = Returned (Inr (length p)) w'
           \<and> wbuf (conns w' c) = wbuf (conns w c) @ format_bits 16 (length p) @ CRLF @ p @ CRLF
           \<and> trace w' = trace w)"
    using Write_chunk by blast
  have c: "chunker t = Some c \<and> conn t = Some c \<and> werr (conns w c) = None
    \<longrightarrow> wbuf (conns (chunk_Close c w) c) = wbuf (conns w c) @ ''0'' @ CRLF
      \<and> (\<exists>r w' rest. Commit e t delta w = Returned r w'
           \<and> trace w' = trace w @
                Raw c (NetWrite (wbuf (conns w c) @ ''0'' @ CRLF @ commit_trailer delta)) # rest)"
    using chunk_Close_wbuf Commit_wire by blast
  from a b c show ?thesis by blast
qed

text \<open>
  The theorem at a transaction that writes one payload and commits: the handshake ends
  with read, clear, send, and the transport then receives the chunk, the terminal chunk
  and the trailer in this order.
\<close>

theorem C5_sequential_framing_witness:
  "(\<exists>pre. trace streaming_world =
       pre @ [Raw 0 (SetReadDeadline (Some 1060)), Raw 0 NetRead, Raw 0 (SetReadDeadline None),
              Send 7 \<lparr>Error = None, ErrorWriteHead = 0, Writer = Some a_handle\<rparr>])
   \<and> (\<exists>r w' rest. Commit (peer_env (reply 204 [] [])) a_handle 5 written_world = Returned r w'
         \<and> trace w' = trace written_world @
             Raw 0 (NetWrite (''2'' @ CRLF @ ''hi'' @ CRLF @ ''0'' @ CRLF
                              @ ''X-Commit-Delta: 5'' @ CRLF @ CRLF)) # rest)"
proof -
  let ?e = "peer_env (reply 100 [] [])"
  let ?w = "NewReplicateClient world0"
  let ?r = "\<lparr>Error = None, ErrorWriteHead = 0, Writer = Some a_handle\<rparr>"
  have st: "start ?e an_op ?w = Returned () streaming_world"
    by (simp add: streaming_world_eq a_handle_def start_def prim_defs fixture_defs
      const_defs Let_def handshake_request_def fun_eq_iff)
  have sn: "sends (Result an_op) (trace streaming_world) = sends (Result an_op) (trace ?w) @ [?r]"
    by (simp add: streaming_world_eq an_op_def NewReplicateClient_def world0_def)
  have wr: "Writer ?r = Some a_handle" by simp
  have h: "chunker a_handle = Some 0 \<and> conn a_handle = Some 0
      \<and> werr (conns written_world 0) = None"
    by (simp add: a_handle_def written_world_eq)
  from C5_sequential_framing [where e = ?e and op = an_op and w = ?w and w' = streaming_world
      and r = ?r and t = a_handle] st sn wr
  have a: "\<exists>c resp pre. response ?e = Inr resp \<and> StatusCode resp = StatusContinue
           \<and> chunker a_handle = Some c \<and> conn a_handle = Some c
           \<and> trace streaming_world = pre @ [Raw c (SetReadDeadline (Some (now ?e + Minute))),
                Raw c NetRead, Raw c (SetReadDeadline None), Send (Result an_op) ?r]"
    by blast
  then have a': "\<exists>pre. trace streaming_world =
       pre @ [Raw 0 (SetReadDeadline (Some 1060)), Raw 0 NetRead, Raw 0 (SetReadDeadline None),
              Send 7 ?r]"
    by (auto simp: a_handle_def peer_env_def Minute_def an_op_def)
  from C5_sequential_framing [where t = a_handle and c = 0 and w = written_world
      and e = "peer_env (reply 204 [] [])" and delta = 5] h
  have "\<exists>r w' rest. Commit (peer_env (reply 204 [] [])) a_handle 5 written_world = Returned r w'
           \<and> trace w' = trace written_world @
                Raw 0 (NetWrite (wbuf (conns written_world 0) @ ''0'' @ CRLF @ commit_trailer 5)) # rest"
    by blast
  then have b: "\<exists>r w' rest. Commit (peer_env (reply 204 [] [])) a_handle 5 written_world = Returned r w'
         \<and> trace w' = trace written_world @
             Raw 0 (NetWrite (''2'' @ CRLF @ ''hi'' @ CRLF @ ''0'' @ CRLF
                              @ ''X-Commit-Delta: 5'' @ CRLF @ CRLF)) # rest"
    by (simp add: written_world_eq commit_trailer_5)
  from a' b show ?thesis by blast
qed

subsection \<open>What an operation on one connection leaves alone\<close>

lemma same_but_refl [simp]: "same_but c w w"
  by (simp add: same_but_def)

lemma same_but_trans: "same_but c w w1 \<Longrightarrow> same_but c w1 w2 \<Longrightarrow> same_but c w w2"
  by (simp add: same_but_def)

lemma writers_append: "writers (xs @ ys) = writers xs @ writers ys"
  by (induction xs rule: writers.induct) (auto split: option.splits)

lemma same_but_emit_Raw [simp]: "same_but c w (emit (Raw c' k) w)"
  by (simp add: same_but_def emit_def writers_append)

lemma same_but_raw_SetReadDeadline [simp]: "same_but c w (raw_SetReadDeadline c d w)"
  by (simp add: same_but_def raw_SetReadDeadline_def emit_def writers_append)

lemma same_but_buf_Write [simp]: "same_but c w (buf_Write c b w)"
  by (simp add: same_but_def buf_Write_def split: option.splits)

lemma same_but_chunk_Close [simp]: "same_but c w (chunk_Close c w)"
  by (simp add: chunk_Close_def)

lemma same_but_buf_Flush: "buf_Flush c f w = (r, w') \<Longrightarrow> same_but c w w'"
  by (auto simp: same_but_def buf_Flush_def emit_def Let_def writers_append
      split: option.splits if_splits)

lemma same_but_pool_conns: "same_but c w w' \<Longrightarrow> pool_conns w' = pool_conns w"
  by (simp add: same_but_def pool_conns_def)

lemma read_deadline_buf_Write [simp]:
  "read_deadline (conns (buf_Write c b w) c') = read_deadline (conns w c')"
  by (simp add: buf_Write_def split: option.splits)

lemma chan_recv_Some:
  assumes "chan_recv ch = Some (c, p)"
  obtains q rest where "ch = Some q" "queue q = c # rest" "p = Some (q\<lparr>queue := rest\<rparr>)"
  using assms by (auto simp: chan_recv_def split: option.splits list.splits)

lemma takeConn_pooled:
  "chan_recv (idlePool w) = Some (c, p) \<Longrightarrow> takeConn e w = (Inr c, w\<lparr>idlePool := p\<rparr>)"
  by (simp add: takeConn_def)

lemma takeConn_dialled:
  "chan_recv (idlePool w) = None \<Longrightarrow> ResolveURL e = Inr host \<Longrightarrow> Dial e host = None \<Longrightarrow>
     takeConn e w = (Inr (next_conn w),
       w\<lparr>conns := (conns w)(next_conn w := fresh_conn), next_conn := Suc (next_conn w)\<rparr>)"
  by (simp add: takeConn_def)

lemma takeConn_Inr:
  assumes "takeConn e w = (Inr c, w1)"
  shows "(pool_conns w = c # pool_conns w1 \<and> conns w1 = conns w \<and> next_conn w1 = next_conn w)
       \<or> (c = next_conn w \<and> pool_conns w1 = pool_conns w \<and> next_conn w1 = Suc (next_conn w)
           \<and> (\<forall>c'. c' \<noteq> c \<longrightarrow> conns w1 c' = conns w c'))"
proof (cases "chan_recv (idlePool w)")
  case (Some a)
  obtain c0 p where a: "a = (c0, p)" by (cases a)
  from Some a obtain q rest where q: "idlePool w = Some q" "queue q = c0 # rest"
      "p = Some (q\<lparr>queue := rest\<rparr>)"
    by (auto elim: chan_recv_Some)
  from takeConn_pooled [of w c0 p e] Some a assms have "c = c0" "w1 = w\<lparr>idlePool := p\<rparr>"
    by simp_all
  with q show ?thesis by (simp add: pool_conns_def)
next
  case None
  show ?thesis
  proof (cases "ResolveURL e")
    case (Inl err)
    with None assms show ?thesis by (simp add: takeConn_resolve_fails)
  next
    case (Inr host)
    show ?thesis
    proof (cases "Dial e host")
      case (Some err)
      with None Inr assms show ?thesis by (simp add: takeConn_dial_fails)
    next
      case no: None
      from takeConn_dialled [OF None Inr no] assms
      have "c = next_conn w"
        "w1 = w\<lparr>conns := (conns w)(next_conn w := fresh_conn), next_conn := Suc (next_conn w)\<rparr>"
        by simp_all
      then show ?thesis by (simp add: pool_conns_def)
    qed
  qed
qed

lemma takeConn_Inl:
  assumes "takeConn e w = (Inl err, w1)"
  shows "idlePool w1 = idlePool w \<and> conns w1 = conns w \<and> next_conn w1 = next_conn w"
proof (cases "chan_recv (idlePool w)")
  case (Some a)
  obtain c0 p where "a = (c0, p)" by (cases a)
  with takeConn_pooled [of w c0 p e] Some assms show ?thesis by simp
next
  case None
  show ?thesis
  proof (cases "ResolveURL e")
    case (Inl err')
    with None assms show ?thesis by (simp add: takeConn_resolve_fails)
  next
    case (Inr host)
    show ?thesis
    proof (cases "Dial e host")
      case (Some err')
      with None Inr assms show ?thesis by (auto simp: takeConn_dial_fails emit_def)
    next
      case no: None
      from takeConn_dialled [OF None Inr no] assms show ?thesis by simp
    qed
  qed
qed

subsection \<open>The invariant of the pool\<close>

lemma pool_inv_cong:
  "idlePool w' = idlePool w \<Longrightarrow> conns w' = conns w \<Longrightarrow> next_conn w' = next_conn w \<Longrightarrow>
     pool_inv w' os = pool_inv w os"
  by (simp add: pool_inv_def pool_conns_def)

lemma pool_inv_send [simp]: "pool_inv (send ch r w) os = pool_inv w os"
  by (rule pool_inv_cong) (simp_all add: send_def emit_def)

lemma pool_inv_take:
  assumes i: "pool_inv w os" and t: "takeConn e w = (Inr c, w1)"
  shows "pool_inv w1 os \<and> c \<notin> set (pool_conns w1 @ os) \<and> c < next_conn w1"
proof -
  from takeConn_Inr [OF t] show ?thesis
  proof
    assume a: "pool_conns w = c # pool_conns w1 \<and> conns w1 = conns w \<and> next_conn w1 = next_conn w"
    with i show ?thesis by (simp add: pool_inv_def)
  next
    assume a: "c = next_conn w \<and> pool_conns w1 = pool_conns w \<and> next_conn w1 = Suc (next_conn w)
           \<and> (\<forall>c'. c' \<noteq> c \<longrightarrow> conns w1 c' = conns w c')"
    from i have lt: "\<forall>x\<in>set (pool_conns w @ os). x < next_conn w"
      and dl: "\<forall>x\<in>set (pool_conns w @ os). read_deadline (conns w x) = None"
      and ds: "distinct (pool_conns w @ os)"
      by (simp_all add: pool_inv_def)
    from lt a have ne: "\<forall>x\<in>set (pool_conns w @ os). x \<noteq> c" by blast
    have "pool_inv w1 os"
      unfolding pool_inv_def using a ds lt dl ne by (auto simp: less_Suc_eq)
    moreover have "c \<notin> set (pool_conns w1 @ os)" using a ne by auto
    moreover have "c < next_conn w1" using a by simp
    ultimately show ?thesis by blast
  qed
qed

lemma pool_inv_take_fails: "pool_inv w os \<Longrightarrow> takeConn e w = (Inl err, w1) \<Longrightarrow> pool_inv w1 os"
  using takeConn_Inl [of e w err w1] pool_inv_cong [of w1 w os] by simp

lemma pool_inv_limbo:
  assumes "pool_inv w os" "c \<notin> set (pool_conns w @ os)" "c < next_conn w" "same_but c w w'"
  shows "pool_inv w' os \<and> c \<notin> set (pool_conns w' @ os) \<and> c < next_conn w'"
proof -
  from assms(4) have p: "pool_conns w' = pool_conns w" by (rule same_but_pool_conns)
  from assms(4) have n: "next_conn w' = next_conn w"
    and o: "\<forall>c'. c' \<noteq> c \<longrightarrow> conns w' c' = conns w c'"
    by (simp_all add: same_but_def)
  have "\<forall>x\<in>set (pool_conns w @ os). conns w' x = conns w x" using assms(2) o by metis
  with assms(1) p n have "pool_inv w' os" by (simp add: pool_inv_def)
  with assms(2,3) p n show ?thesis by simp
qed

lemma pool_inv_put:
  assumes "pool_inv w os" "c \<notin> set (pool_conns w @ os)" "c < next_conn w"
  shows "pool_inv (putConn c w) os"
proof -
  let ?w1 = "raw_SetReadDeadline c None w"
  have l: "pool_inv ?w1 os \<and> c \<notin> set (pool_conns ?w1 @ os) \<and> c < next_conn ?w1"
    using assms by (intro pool_inv_limbo [of w os c]) simp_all
  have d: "read_deadline (conns ?w1 c) = None"
    by (simp add: raw_SetReadDeadline_def emit_def)
  show ?thesis
  proof (cases "chan_send (idlePool ?w1) c")
    case None
    with l show ?thesis by (simp add: putConn_def Let_def)
  next
    case (Some p)
    then obtain q where q: "idlePool ?w1 = Some q" "p = Some (q\<lparr>queue := queue q @ [c]\<rparr>)"
      by (auto simp: chan_send_def split: option.splits if_splits)
    have pw: "putConn c w = ?w1\<lparr>idlePool := p\<rparr>" using Some by (simp add: putConn_def Let_def)
    have pc: "pool_conns (putConn c w) = pool_conns ?w1 @ [c]"
      using q by (simp add: pw pool_conns_def)
    show ?thesis
      unfolding pool_inv_def pc using l d by (auto simp: pool_inv_def pw)
  qed
qed

lemma pool_inv_own:
  assumes "pool_inv w os" "c \<notin> set (pool_conns w @ os)" "c < next_conn w"
    "read_deadline (conns w c) = None"
  shows "pool_inv w (c # os)"
  using assms by (auto simp: pool_inv_def)

lemma pool_inv_disown:
  assumes "pool_inv w os" "c \<in> set os"
  shows "pool_inv w (removeAll c os) \<and> c \<notin> set (pool_conns w @ removeAll c os) \<and> c < next_conn w"
  using assms by (auto simp: pool_inv_def distinct_removeAll)

lemma pool_inv_owned_write:
  assumes "pool_inv w os" "same_but c w w'" "read_deadline (conns w' c) = read_deadline (conns w c)"
  shows "pool_inv w' os"
proof -
  from assms(2) have p: "pool_conns w' = pool_conns w" by (rule same_but_pool_conns)
  from assms(2) have n: "next_conn w' = next_conn w"
    and o: "\<forall>c'. c' \<noteq> c \<longrightarrow> conns w' c' = conns w c'"
    by (simp_all add: same_but_def)
  have "\<forall>x. read_deadline (conns w' x) = read_deadline (conns w x)"
    using o assms(3) by metis
  with assms(1) p n show ?thesis by (simp add: pool_inv_def)
qed

subsection \<open>The handles delivered, and the connections they own\<close>

lemma writers_takeConn: "takeConn e w = (r, w1) \<Longrightarrow> writers (trace w1) = writers (trace w)"
  by (auto simp: takeConn_def emit_def writers_append split: option.splits sum.splits prod.splits)

lemma writers_send:
  "writers (trace (send ch r w)) =
     writers (trace w) @ (case Writer r of Some t \<Rightarrow> [t] | None \<Rightarrow> [])"
  by (simp add: send_def emit_def writers_append split: option.splits)

lemma same_but_writers: "same_but c w w' \<Longrightarrow> writers (trace w') = writers (trace w)"
  by (simp add: same_but_def)

lemma writers_putConn [simp]: "writers (trace (putConn c w)) = writers (trace w)"
  by (simp add: trace_putConn writers_append)

lemma delivered_send:
  "writers (trace wp) = writers (trace w) \<Longrightarrow>
     delivered w (send ch r wp) = (case Writer r of Some t \<Rightarrow> [t] | None \<Rightarrow> [])"
  by (simp add: delivered_def writers_send)

lemma owned_Cons: "owned (t # ts) = (case conn t of None \<Rightarrow> [] | Some c \<Rightarrow> [c]) @ owned ts"
  by (simp add: owned_def)

lemma owned_Nil [simp]: "owned [] = []"
  by (simp add: owned_def)

lemma owned_mem: "t \<in> set ts \<Longrightarrow> conn t = Some c \<Longrightarrow> c \<in> set (owned ts)"
  by (induction ts) (auto simp: owned_Cons)

lemma owned_removeAll:
  assumes "distinct (owned ts)" "\<forall>t\<in>set ts. conn t \<noteq> None" "t \<in> set ts" "conn t = Some c"
  shows "owned (removeAll t ts) = removeAll c (owned ts)"
  using assms
proof (induction ts)
  case Nil
  then show ?case by simp
next
  case (Cons t' ts)
  from Cons.prems(2) obtain c' where c': "conn t' = Some c'" by auto
  from Cons.prems(1) c' have nin: "c' \<notin> set (owned ts)" and ds: "distinct (owned ts)"
    by (simp_all add: owned_Cons)
  show ?case
  proof (cases "t' = t")
    case True
    with c' Cons.prems(4) have cc: "c' = c" by simp
    have "t \<notin> set ts" using nin cc owned_mem [of t ts c] Cons.prems(4) by blast
    then have "removeAll t ts = ts" by simp
    with True c' cc nin show ?thesis by (simp add: owned_Cons)
  next
    case False
    with Cons.prems(3) have tin: "t \<in> set ts" by simp
    from owned_mem [OF tin Cons.prems(4)] have "c \<in> set (owned ts)" .
    with nin have ne: "c' \<noteq> c" by blast
    have "owned (removeAll t ts) = removeAll c (owned ts)"
      using Cons.IH [OF ds _ tin Cons.prems(4)] Cons.prems(2) by simp
    with False c' ne show ?thesis by (simp add: owned_Cons)
  qed
qed

subsection \<open>Every step keeps the invariant\<close>

lemma sys_inv_init: "sys_inv world0 []"
  by (simp add: sys_inv_def pool_inv_def pool_conns_def world0_def)

lemma open_handleD: "open_handle t \<Longrightarrow> \<exists>c. chunker t = Some c \<and> conn t = Some c"
  by (cases "chunker t") (simp_all add: open_handle_def)

lemma pool_conns_NewReplicateClient [simp]: "pool_conns (NewReplicateClient w) = pool_conns w"
  by (simp add: pool_conns_def NewReplicateClient_def split: option.splits)

lemma sys_inv_client: "sys_inv w ts \<Longrightarrow> sys_inv (NewReplicateClient w) ts"
proof -
  have "conns (NewReplicateClient w) = conns w" "next_conn (NewReplicateClient w) = next_conn w"
    by (simp_all add: NewReplicateClient_def split: option.splits)
  then show "sys_inv w ts \<Longrightarrow> sys_inv (NewReplicateClient w) ts"
    by (simp add: sys_inv_def pool_inv_def)
qed

lemma handshake_frame:
  assumes "buf_Flush c f (buf_Write c b w1) = (r, w2)"
  shows "same_but c w1 w2"
  using same_but_trans [OF same_but_buf_Write same_but_buf_Flush [OF assms]] .

lemma await_frame:
  "same_but c w2 (emit (Raw c NetRead) (raw_SetReadDeadline c d w2))"
  using same_but_trans [OF same_but_raw_SetReadDeadline same_but_emit_Raw] .

lemma sys_inv_start:
  assumes si: "sys_inv w ts" and st: "start e op w = Returned () w'"
  shows "sys_inv w' (delivered w w' @ ts)"
proof -
  from si have i: "pool_inv w (owned ts)" and ho: "\<forall>t\<in>set ts. open_handle t"
    by (simp_all add: sys_inv_def)
  show ?thesis
  proof (cases e w op rule: start_cases)
    case (take_fail err w1)
    from st take_fail(2) have w': "w' = send (Result op)
        \<lparr>Error = Some err, ErrorWriteHead = 0, Writer = None\<rparr> w1" by simp
    have "delivered w w' = []"
      unfolding w' using writers_takeConn [OF take_fail(1)] by (simp add: delivered_send)
    moreover have "pool_inv w' (owned ts)"
      unfolding w' using pool_inv_take_fails [OF i take_fail(1)] by simp
    ultimately show ?thesis using ho by (simp add: sys_inv_def)
  next
    case (nil_request c w1)
    with st show ?thesis by simp
  next
    case (dump_fail c w1 req0 err)
    from st dump_fail(4) have w': "w' = send (Result op)
        \<lparr>Error = Some err, ErrorWriteHead = 0, Writer = None\<rparr> w1" by simp
    have "delivered w w' = []"
      unfolding w' using writers_takeConn [OF dump_fail(1)] by (simp add: delivered_send)
    moreover have "pool_inv w' (owned ts)"
      unfolding w' using pool_inv_take [OF i dump_fail(1)] by simp
    ultimately show ?thesis using ho by (simp add: sys_inv_def)
  next
    case (flush_fail c w1 req0 reqBytes err w2)
    from st flush_fail(5) have w': "w' = send (Result op)
        \<lparr>Error = Some err, ErrorWriteHead = 0, Writer = None\<rparr> w2" by simp
    note l1 = pool_inv_take [OF i flush_fail(1)]
    have sb: "same_but c w1 w2" using flush_fail(4) by (rule handshake_frame)
    have "writers (trace w2) = writers (trace w)"
      using same_but_writers [OF sb] writers_takeConn [OF flush_fail(1)] by simp
    then have "delivered w w' = []" unfolding w' by (simp add: delivered_send)
    moreover have "pool_inv w' (owned ts)"
      unfolding w' using pool_inv_limbo [of w1 "owned ts" c w2] l1 sb by simp
    ultimately show ?thesis using ho by (simp add: sys_inv_def)
  next
    case (read_fail c w1 req0 reqBytes w2 err)
    let ?wp = "emit (Raw c NetRead) (raw_SetReadDeadline c (Some (now e + Minute)) w2)"
    from st read_fail(6) have w': "w' = send (Result op)
        \<lparr>Error = Some err, ErrorWriteHead = 0, Writer = None\<rparr> ?wp" by simp
    note l1 = pool_inv_take [OF i read_fail(1)]
    have sb: "same_but c w1 ?wp"
      using same_but_trans [OF handshake_frame [OF read_fail(4)] await_frame] .
    have "writers (trace ?wp) = writers (trace w)"
      using same_but_writers [OF sb] writers_takeConn [OF read_fail(1)] by simp
    then have "delivered w w' = []" unfolding w' by (simp add: delivered_send)
    moreover have "pool_inv w' (owned ts)"
      unfolding w' using pool_inv_limbo [of w1 "owned ts" c ?wp] l1 sb by simp
    ultimately show ?thesis using ho by (simp add: sys_inv_def)
  next
    case (rejected c w1 req0 reqBytes w2 resp ferr w4)
    let ?w3 = "emit (Raw c NetRead) (raw_SetReadDeadline c (Some (now e + Minute)) w2)"
    let ?wf = "if \<not> Close resp \<and> ferr = None then putConn c w4 else w4"
    from st rejected(8) have w': "w' = send (Result op)
        \<lparr>Error = Some (ErrorsNew (Body resp)), ErrorWriteHead = remoteWriteHead_of resp,
         Writer = None\<rparr> ?wf" by simp
    note l1 = pool_inv_take [OF i rejected(1)]
    have sb3: "same_but c w1 ?w3"
      using same_but_trans [OF handshake_frame [OF rejected(4)] await_frame] .
    have sb: "same_but c w1 w4"
      using same_but_trans [OF sb3 handshake_frame [OF rejected(7)]] .
    have w4: "writers (trace w4) = writers (trace w)"
      using same_but_writers [OF sb] writers_takeConn [OF rejected(1)] by simp
    then have "writers (trace ?wf) = writers (trace w)" by simp
    then have "delivered w w' = []" unfolding w' by (simp add: delivered_send)
    moreover have l4: "pool_inv w4 (owned ts) \<and> c \<notin> set (pool_conns w4 @ owned ts) \<and> c < next_conn w4"
      using pool_inv_limbo [of w1 "owned ts" c w4] l1 sb by simp
    then have "pool_inv ?wf (owned ts)" using pool_inv_put [of w4 "owned ts" c] by simp
    then have "pool_inv w' (owned ts)" unfolding w' by simp
    ultimately show ?thesis using ho by (simp add: sys_inv_def)
  next
    case (continue c w1 req0 reqBytes w2 resp)
    let ?w3 = "emit (Raw c NetRead) (raw_SetReadDeadline c (Some (now e + Minute)) w2)"
    let ?wp = "raw_SetReadDeadline c None ?w3"
    let ?t = "\<lparr>chunker = Some c, conn = Some c, request = Some (handshake_request op req0)\<rparr>"
    from st continue(7) have w': "w' = send (Result op)
        \<lparr>Error = None, ErrorWriteHead = 0, Writer = Some ?t\<rparr> ?wp" by simp
    note l1 = pool_inv_take [OF i continue(1)]
    have sb3: "same_but c w1 ?w3"
      using same_but_trans [OF handshake_frame [OF continue(4)] await_frame] .
    have sb: "same_but c w1 ?wp"
      using same_but_trans [OF sb3 same_but_raw_SetReadDeadline] .
    have "writers (trace ?wp) = writers (trace w)"
      using same_but_writers [OF sb] writers_takeConn [OF continue(1)] by simp
    then have d: "delivered w w' = [?t]" unfolding w' by (simp add: delivered_send)
    have lp: "pool_inv ?wp (owned ts) \<and> c \<notin> set (pool_conns ?wp @ owned ts) \<and> c < next_conn ?wp"
      using pool_inv_limbo [of w1 "owned ts" c ?wp] l1 sb by simp
    have dl: "read_deadline (conns ?wp c) = None"
      by (simp add: raw_SetReadDeadline_def emit_def)
    have "pool_inv ?wp (c # owned ts)" using pool_inv_own [of ?wp "owned ts" c] lp dl by simp
    then have "pool_inv w' (owned (?t # ts))" unfolding w' by (simp add: owned_Cons)
    moreover have "open_handle ?t" by (simp add: open_handle_def)
    ultimately show ?thesis using ho d by (simp add: sys_inv_def)
  qed
qed

lemma sys_inv_Write:
  assumes si: "sys_inv w ts" and tin: "t \<in> set ts" and wr: "Write t p w = Returned r w'"
  shows "sys_inv w' ts"
proof -
  from si have i: "pool_inv w (owned ts)" and ho: "\<forall>t\<in>set ts. open_handle t"
    by (simp_all add: sys_inv_def)
  from ho tin open_handleD [of t] obtain c where c: "chunker t = Some c" by auto
  from wr c have "w' = w \<or> w' = buf_Write c (format_bits 16 (length p) @ CRLF @ p @ CRLF) w"
    by (auto simp: Write_def chunk_Write_def split: if_splits option.splits)
  then have "same_but c w w' \<and> read_deadline (conns w' c) = read_deadline (conns w c)"
    by auto
  then have "pool_inv w' (owned ts)" using pool_inv_owned_write [OF i] by blast
  with ho show ?thesis by (simp add: sys_inv_def)
qed

lemma sys_inv_Commit:
  assumes si: "sys_inv w ts" and tin: "t \<in> set ts" and cm: "Commit e t delta w = Returned r w'"
  shows "sys_inv w' (removeAll t ts)"
proof -
  from si have i: "pool_inv w (owned ts)" and ho: "\<forall>t\<in>set ts. open_handle t"
    by (simp_all add: sys_inv_def)
  from ho tin open_handleD [of t] obtain c where c: "chunker t = Some c" "conn t = Some c" by auto
  from i have ds: "distinct (owned ts)" by (simp add: pool_inv_def)
  from ho have nn: "\<forall>t\<in>set ts. conn t \<noteq> None" using open_handleD by fastforce
  have ow: "owned (removeAll t ts) = removeAll c (owned ts)"
    using owned_removeAll [OF ds nn tin c(2)] .
  let ?os = "removeAll c (owned ts)"
  have l0: "pool_inv w ?os \<and> c \<notin> set (pool_conns w @ ?os) \<and> c < next_conn w"
    using pool_inv_disown [OF i owned_mem [OF tin c(2)]] .
  obtain ferr w2 where f:
    "buf_Flush c (flush_fault e) (buf_Write c (commit_trailer delta) (chunk_Close c w)) = (ferr, w2)"
    by (cases "buf_Flush c (flush_fault e) (buf_Write c (commit_trailer delta) (chunk_Close c w))") auto
  have sb2: "same_but c w w2"
    using same_but_trans [OF same_but_chunk_Close handshake_frame [OF f]] .
  let ?w3 = "emit (Raw c NetRead) (raw_SetReadDeadline c (Some (now e + Minute)) w2)"
  have sb3: "same_but c w ?w3" using same_but_trans [OF sb2 await_frame] .
  have l2: "pool_inv w2 ?os \<and> c \<notin> set (pool_conns w2 @ ?os) \<and> c < next_conn w2"
    using pool_inv_limbo [of w ?os c w2] l0 sb2 by simp
  have l3: "pool_inv ?w3 ?os \<and> c \<notin> set (pool_conns ?w3 @ ?os) \<and> c < next_conn ?w3"
    using pool_inv_limbo [of w ?os c ?w3] l0 sb3 by simp
  have "pool_inv w' ?os"
  proof (cases ferr)
    case (Some err)
    with Commit_flush_fails [OF c] f cm have "w' = w2" by simp
    with l2 show ?thesis by simp
  next
    case None
    show ?thesis
    proof (cases "response e")
      case (Inl err)
      with Commit_read_fails [OF c] f None cm have "w' = ?w3" by simp
      with l3 show ?thesis by simp
    next
      case (Inr resp)
      with Commit_response [OF c] f None cm
      have "w' = (if Close resp then ?w3 else putConn c ?w3)" by simp
      with l3 pool_inv_put [of ?w3 ?os c] show ?thesis by simp
    qed
  qed
  with ho ow show ?thesis by (simp add: sys_inv_def)
qed

lemma reachable_sys_inv: "reachable w ts \<Longrightarrow> sys_inv w ts"
proof (induction rule: reachable.induct)
  case at_init
  show ?case by (rule sys_inv_init)
next
  case (by_client w ts)
  then show ?case by (simp add: sys_inv_client)
next
  case (by_replicate w ts e op w')
  then show ?case by (simp add: Replicate_def sys_inv_start)
next
  case (by_write w ts t p r w')
  then show ?case using sys_inv_Write by blast
next
  case (by_commit w ts t e delta r w')
  then show ?case using sys_inv_Commit by blast
qed

text \<open>
  C8, as amended. In every world reached by using the client as the protocol intends
  (each handle committed at most once), every connection in the idle pool has no read
  deadline, and neither has the connection of any transaction that is streaming: the
  deadline set while awaiting the continue response was cleared before the handle was
  delivered. In any world at all, a release clears the read deadline of the connection it
  is given before the connection can enter the pool.
\<close>

theorem C8_pooled_no_deadline:
  assumes "reachable w ts"
  shows "(\<forall>c\<in>set (pool_conns w). read_deadline (conns w c) = None)
       \<and> (\<forall>t\<in>set ts. \<forall>c. conn t = Some c \<longrightarrow> read_deadline (conns w c) = None)
       \<and> read_deadline (conns (putConn c' w0) c') = None"
proof -
  from reachable_sys_inv [OF assms] have i: "pool_inv w (owned ts)" by (simp add: sys_inv_def)
  then have a: "\<forall>c\<in>set (pool_conns w). read_deadline (conns w c) = None"
    by (simp add: pool_inv_def)
  have b: "\<forall>t\<in>set ts. \<forall>c. conn t = Some c \<longrightarrow> read_deadline (conns w c) = None"
  proof (intro ballI allI impI)
    fix t c assume "t \<in> set ts" "conn t = Some c"
    then have "c \<in> set (owned ts)" by (rule owned_mem)
    with i show "read_deadline (conns w c) = None" by (simp add: pool_inv_def)
  qed
  have c: "read_deadline (conns (putConn c' w0) c') = None"
    by (simp add: putConn_def raw_SetReadDeadline_def emit_def Let_def split: option.splits)
  from a b c show ?thesis by blast
qed

lemma reachable_streaming: "reachable streaming_world [a_handle]"
proof -
  let ?e = "peer_env (reply 100 [] [])"
  let ?w = "NewReplicateClient world0"
  have r0: "reachable ?w []" by (intro reachable.by_client reachable.at_init)
  have st: "Replicate ?e an_op ?w = Returned () streaming_world"
    by (simp add: Replicate_def streaming_world_eq a_handle_def start_def prim_defs fixture_defs
      const_defs Let_def handshake_request_def fun_eq_iff)
  have d: "delivered ?w streaming_world = [a_handle]"
    by (simp add: delivered_def streaming_world_eq NewReplicateClient_def world0_def)
  from reachable.by_replicate [OF r0 st] d show ?thesis by simp
qed

lemma reachable_committed: "reachable committed_world []"
proof -
  have cm: "Commit (peer_env (reply 204 [] [])) a_handle 5 streaming_world = Returned None committed_world"
    by (simp add: committed_world_eq Commit_def a_handle_def streaming_world_eq
      commit_trailer_5 chunk_Close_def prim_defs fixture_defs const_defs Let_def fun_eq_iff)
  from reachable.by_commit [OF reachable_streaming _ cm] show ?thesis by simp
qed

text \<open>
  The theorem at the world after one transaction was committed, whose connection is back
  in the pool, and at the world in which that transaction was streaming.
\<close>

theorem C8_pooled_no_deadline_witness:
  "reachable committed_world [] \<and> pool_conns committed_world = [0]
   \<and> read_deadline (conns committed_world 0) = None
   \<and> reachable streaming_world [a_handle] \<and> conn a_handle = Some 0
   \<and> read_deadline (conns streaming_world 0) = None"
proof -
  have p: "pool_conns committed_world = [0]" by (simp add: committed_world_eq pool_conns_def)
  have h: "conn a_handle = Some 0" by (simp add: a_handle_def)
  from C8_pooled_no_deadline [OF reachable_committed] p
  have a: "read_deadline (conns committed_world 0) = None" by simp
  from C8_pooled_no_deadline [OF reachable_streaming] h
  have b: "read_deadline (conns streaming_world 0) = None" by simp
  from reachable_committed reachable_streaming p h a b show ?thesis by blast
qed

text \<open>
  The claim as first stated fails when a handle is committed a second time, which nothing
  prevents: the second commit sets the read deadline on the connection that is already in
  the pool, and when reading the response fails it returns without clearing it. The
  pooled connection is left with the deadline.
\<close>

theorem C8_second_commit_counterexample:
  "reachable committed_world [] \<and> pool_conns committed_world = [0]
   \<and> (\<exists>w'. Commit timeout_env a_handle 5 committed_world
              = Returned (Some (ExternalError ''i/o timeout'')) w'
           \<and> pool_conns w' = [0] \<and> read_deadline (conns w' 0) = Some 1060)"
proof -
  have p: "pool_conns committed_world = [0]" by (simp add: committed_world_eq pool_conns_def)
  have c: "\<exists>w'. Commit timeout_env a_handle 5 committed_world
              = Returned (Some (ExternalError ''i/o timeout'')) w'
           \<and> pool_conns w' = [0] \<and> read_deadline (conns w' 0) = Some 1060"
    by (simp add: Commit_def a_handle_def committed_world_eq timeout_env_def
      commit_trailer_5 chunk_Close_def prim_defs fixture_defs const_defs Let_def pool_conns_def)
  from reachable_committed p c show ?thesis by blast
qed

end
